theory Spec2Isabelle
  imports Main
begin

section \<open>Ephemeris Time of Day: the timer-driven state machine of ephem\_tod.py\<close>

text \<open>
  The script reads the openHAB item registry, item metadata and the Ephemeris calendar,
  and acts on the outside world through the event bus (commands and updates), the log and
  a registry of named timers. The model passes what is read as an environment and returns
  what is done as an ordered trace of effects together with the timer registry.
\<close>

subsection \<open>Time\<close>

text \<open>
  The local date-time of a \<open>ZonedDateTime\<close>: the calendar day as a day number and the
  fields of the local time. \<open>instant\<close> is its place on the local time line, in
  nanoseconds. The date-times of one run are built from the clock reading and keep its
  offset wherever the zone allows, so that \<open>isBefore\<close> and \<open>isAfter\<close> of \<open>java.time\<close>,
  which compare instants, compare the places on the local time line.
\<close>

record zdt =
  epoch_day :: int
  hour :: nat
  minute :: nat
  second :: nat
  nano :: nat

definition time_of_day :: "zdt \<Rightarrow> int" where
  "time_of_day d =
     ((int (hour d) * 60 + int (minute d)) * 60 + int (second d)) * 1000000000 + int (nano d)"

definition instant :: "zdt \<Rightarrow> int" where
  "instant d = epoch_day d * 86400000000000 + time_of_day d"

definition isBefore :: "zdt \<Rightarrow> zdt \<Rightarrow> bool" where
  "isBefore a b = (instant a < instant b)"

definition isAfter :: "zdt \<Rightarrow> zdt \<Rightarrow> bool" where
  "isAfter a b = (instant b < instant a)"

text \<open>The local date-time at a place of the local time line.\<close>

definition of_local :: "int \<Rightarrow> zdt" where
  "of_local n =
     \<lparr>epoch_day = n div 86400000000000,
      hour = nat ((n mod 86400000000000) div 3600000000000),
      minute = nat ((n mod 3600000000000) div 60000000000),
      second = nat ((n mod 60000000000) div 1000000000),
      nano = nat (n mod 1000000000)\<rparr>"

definition plusSeconds :: "zdt \<Rightarrow> int \<Rightarrow> zdt" where
  "plusSeconds d s = of_local (instant d + s * 1000000000)"

text \<open>
  The rules of the zone, as far as they change a local date-time: for a local date-time
  that a daylight-saving gap skips, the length of the gap in seconds; zero for one that
  exists. Every operation of \<open>ZonedDateTime\<close> that builds a new local date-time resolves
  it against the zone (\<open>ZonedDateTime.ofLocal\<close>): a date-time in a gap is moved later by
  the length of the gap, any other is kept.
\<close>

type_synonym zone = "zdt \<Rightarrow> nat"

definition resolveLocal :: "zone \<Rightarrow> zdt \<Rightarrow> zdt" where
  "resolveLocal z d = (if z d = 0 then d else plusSeconds d (int (z d)))"

definition minusDays :: "zone \<Rightarrow> zdt \<Rightarrow> int \<Rightarrow> zdt" where
  "minusDays z d n = resolveLocal z (d\<lparr>epoch_day := epoch_day d - n\<rparr>)"

definition plusDays :: "zone \<Rightarrow> zdt \<Rightarrow> int \<Rightarrow> zdt" where
  "plusDays z d n = resolveLocal z (d\<lparr>epoch_day := epoch_day d + n\<rparr>)"

definition withHour :: "zone \<Rightarrow> zdt \<Rightarrow> nat \<Rightarrow> zdt" where
  "withHour z d h = resolveLocal z (d\<lparr>hour := h\<rparr>)"

definition withMinute :: "zone \<Rightarrow> zdt \<Rightarrow> nat \<Rightarrow> zdt" where
  "withMinute z d m = resolveLocal z (d\<lparr>minute := m\<rparr>)"

definition withSecond :: "zone \<Rightarrow> zdt \<Rightarrow> nat \<Rightarrow> zdt" where
  "withSecond z d s = resolveLocal z (d\<lparr>second := s\<rparr>)"

definition withNano :: "zone \<Rightarrow> zdt \<Rightarrow> nat \<Rightarrow> zdt" where
  "withNano z d n = resolveLocal z (d\<lparr>nano := n\<rparr>)"

subsection \<open>Values, effects and the environment\<close>

text \<open>
  The values that item states, metadata values and timer names take. \<open>UnDefType\<close> stands
  for both \<open>NULL\<close> and \<open>UNDEF\<close>; a Python string and the \<open>StringType\<close> of the same text
  are one value, as they are for the bus.
\<close>

datatype val = NoneVal | UnDefType | StringType string | DateTimeType zdt

datatype level = DEBUG | INFO | WARN | ERROR

datatype error = KeyError | AttributeError

text \<open>What a timer runs when it fires: the two lambdas handed to \<open>timers.check\<close>.\<close>

datatype action = Transition val | Reload

datatype event =
    Log level string
  | Traceback error
  | SendCommand string val
  | PostUpdate string val
  | TimerCheck val zdt action
  | TimerCancel val
  | TimerCancelAll
  | Sleep nat

record world =
  timers :: "(val \<times> zdt \<times> action) list"
  trace :: "event list"

text \<open>
  What one run reads: the names of \<open>items\<close> in iteration order with their states,
  the \<open>etod\<close> metadata through \<open>core.metadata\<close>, the Ephemeris answers for today, and
  the rules of the zone of the system clock.
  \<open>items[name]\<close> is only evaluated on names drawn from \<open>items\<close> and on \<open>ETOD_ITEM\<close>,
  which the module creates when it is loaded (lines 36-39). The metadata and Ephemeris
  queries are taken to answer.
\<close>

record env =
  item_names :: "string list"
  item_state :: "string \<Rightarrow> val"
  get_key_value :: "string \<Rightarrow> string \<Rightarrow> string option"
  get_value :: "string \<Rightarrow> val"
  isWeekend :: bool
  isBankHoliday :: bool
  isInDayset :: "string option \<Rightarrow> bool"
  isBankHolidayFile :: "string option \<Rightarrow> bool"
  zone :: zone

definition ETOD_ITEM :: string where
  "ETOD_ITEM = ''TimeOfDay''"

definition emit :: "event \<Rightarrow> world \<Rightarrow> world" where
  "emit ev w = w\<lparr>trace := trace w @ [ev]\<rparr>"

text \<open>Log calls keep the message template; the formatted arguments are not modelled.\<close>

definition log_debug :: "string \<Rightarrow> world \<Rightarrow> world" where
  "log_debug msg = emit (Log DEBUG msg)"

definition log_info :: "string \<Rightarrow> world \<Rightarrow> world" where
  "log_info msg = emit (Log INFO msg)"

definition log_warn :: "string \<Rightarrow> world \<Rightarrow> world" where
  "log_warn msg = emit (Log WARN msg)"

definition log_error :: "string \<Rightarrow> world \<Rightarrow> world" where
  "log_error msg = emit (Log ERROR msg)"

definition sendCommand :: "string \<Rightarrow> val \<Rightarrow> world \<Rightarrow> world" where
  "sendCommand i v = emit (SendCommand i v)"

definition postUpdate :: "string \<Rightarrow> val \<Rightarrow> world \<Rightarrow> world" where
  "postUpdate i v = emit (PostUpdate i v)"

text \<open>
  Modelled from the spec: \<open>core.utils.send_command_if_different\<close> is not under src/. Section
  4.4: it reads the current observable value; if it differs from the new value it issues a
  command, otherwise it does nothing.
\<close>

definition send_command_if_different :: "env \<Rightarrow> string \<Rightarrow> val \<Rightarrow> world \<Rightarrow> world" where
  "send_command_if_different e i v w = (if item_state e i \<noteq> v then sendCommand i v w else w)"

text \<open>
  Modelled from the spec: \<open>core.log.log_traceback\<close> is not under src/. Section 7: every
  entry point is wrapped so that a failure is logged and does not propagate; the wrapped
  call then yields Python's \<open>None\<close>.
\<close>

definition log_traceback :: "world \<times> (error + 'a) \<Rightarrow> world \<times> 'a option" where
  "log_traceback r =
     (case snd r of
        Inl err \<Rightarrow> (emit (Traceback err) (fst r), None)
      | Inr v \<Rightarrow> (fst r, Some v))"

text \<open>
  Modelled from the spec: \<open>community.time_utils\<close> is not under src/. \<open>to_datetime\<close> resolves
  the stored timestamp of a marker (nothing for a state that holds none), and section 4.2
  gives \<open>to_today\<close>: today's date with the marker's time-of-day component. Today is the
  date of the clock reading passed in.
\<close>

definition to_datetime :: "val \<Rightarrow> zdt option" where
  "to_datetime v = (case v of DateTimeType d \<Rightarrow> Some d | _ \<Rightarrow> None)"

definition to_today :: "zdt \<Rightarrow> zdt \<Rightarrow> zdt" where
  "to_today d now = d\<lparr>epoch_day := epoch_day now\<rparr>"

text \<open>
  Modelled from the spec: \<open>community.timer_mgr.TimerMgr\<close> is not under src/. Section 4.3:
  \<open>check\<close> creates the named timer or replaces the one of the same name, \<open>cancel\<close> removes
  a name and is a no-op for an absent one, \<open>cancel_all\<close> leaves no timer. Each call is
  also recorded in the trace with its arguments.
\<close>

definition timers_check :: "val \<Rightarrow> zdt \<Rightarrow> action \<Rightarrow> world \<Rightarrow> world" where
  "timers_check name when f w =
     emit (TimerCheck name when f)
       (w\<lparr>timers := filter (\<lambda>t. fst t \<noteq> name) (timers w) @ [(name, when, f)]\<rparr>)"

definition timers_cancel :: "val \<Rightarrow> world \<Rightarrow> world" where
  "timers_cancel name w =
     emit (TimerCancel name) (w\<lparr>timers := filter (\<lambda>t. fst t \<noteq> name) (timers w)\<rparr>)"

definition timers_cancel_all :: "world \<Rightarrow> world" where
  "timers_cancel_all w = emit TimerCancelAll (w\<lparr>timers := []\<rparr>)"

subsection \<open>get\_times (lines 79-127)\<close>

definition cond :: "'a list \<Rightarrow> ('a \<Rightarrow> bool) \<Rightarrow> 'a list" where
  "cond lst c = filter c lst"

definition types :: "env \<Rightarrow> string \<Rightarrow> string list" where
  "types e ty = filter (\<lambda>i. get_key_value e i ''type'' = Some ty) (item_names e)"

text \<open>The dictionary literal of lines 102-109, as an association list.\<close>

definition start_times :: "env \<Rightarrow> (string \<times> string list) list" where
  "start_times e =
     [(''default'', types e ''default''),
      (''weekday'', if \<not> isWeekend e then types e ''weekday'' else []),
      (''weekend'', if isWeekend e then types e ''weekend'' else []),
      (''dayset'', cond (types e ''dayset'') (\<lambda>i. isInDayset e (get_key_value e i ''set''))),
      (''holiday'', if isBankHoliday e then types e ''holiday'' else []),
      (''custom'', cond (types e ''custom'')
                     (\<lambda>i. isBankHolidayFile e (get_key_value e i ''file'')))]"

text \<open>\<open>d[k]\<close>: a key the dictionary does not hold, \<open>None\<close> among them, raises \<open>KeyError\<close>.\<close>

definition getitem :: "(string \<times> 'a) list \<Rightarrow> string option \<Rightarrow> error + 'a" where
  "getitem d k =
     (case k of
        None \<Rightarrow> Inl KeyError
      | Some k' \<Rightarrow> (case map_of d k' of None \<Rightarrow> Inl KeyError | Some v \<Rightarrow> Inr v))"

text \<open>The truth value of \<open>d[k]\<close> for a list-valued entry: the list is not empty.\<close>

definition truthy :: "(string \<times> 'a list) list \<Rightarrow> string \<Rightarrow> bool" where
  "truthy d k = (case map_of d k of Some (x # xs) \<Rightarrow> True | _ \<Rightarrow> False)"

text \<open>Lines 112-124: the hierarchy.\<close>

definition day_type :: "(string \<times> string list) list \<Rightarrow> string option" where
  "day_type st =
     (if truthy st ''custom'' then Some ''custom''
      else if truthy st ''holiday'' then Some ''holiday''
      else if truthy st ''dayset'' then Some ''dayset''
      else if truthy st ''weekend'' then Some ''weekend''
      else if truthy st ''weekday'' then Some ''weekday''
      else if truthy st ''default'' then Some ''default''
      else None)"

text \<open>
  Line 126 evaluates \<open>start_times[day_type]\<close> for the log message before line 127 tests
  \<open>day_type\<close>: with no category selected the body raises there.
\<close>

definition get_times_body :: "env \<Rightarrow> world \<Rightarrow> world \<times> (error + string list option)" where
  "get_times_body e w =
     (let st = start_times e; dt = day_type st
      in case getitem st dt of
           Inl err \<Rightarrow> (w, Inl err)
         | Inr l \<Rightarrow>
             (log_info ''Today is a {} day, there are {} time periods today.'' w,
              Inr (if dt \<noteq> None then Some l else None)))"

definition get_times :: "env \<Rightarrow> world \<Rightarrow> world \<times> string list option" where
  "get_times e w =
     (case log_traceback (get_times_body e w) of
        (w', None) \<Rightarrow> (w', None)
      | (w', Some r) \<Rightarrow> (w', r))"

subsection \<open>etod\_transition (lines 129-138)\<close>

definition etod_transition :: "env \<Rightarrow> val \<Rightarrow> world \<Rightarrow> world" where
  "etod_transition e state w =
     sendCommand ETOD_ITEM state (log_info ''Transitioning Time of Day from {} to {}'' w)"

subsection \<open>create\_timers (lines 140-191)\<close>

text \<open>
  One iteration of the loop of lines 156-187, on the two running variables and the world.
  A marker whose state holds no timestamp makes \<open>to_today\<close> fail before the iteration
  has any effect. The update of line 165 carries the text of the new \<open>DateTimeType\<close>;
  the model posts the value itself.
\<close>

definition create_timers_step ::
  "env \<Rightarrow> zdt \<Rightarrow> string \<Rightarrow> zdt \<times> val \<times> world \<Rightarrow> error + zdt \<times> val \<times> world" where
  "create_timers_step e now time s =
     (case s of (most_recent_time, most_recent_state, w) \<Rightarrow>
        (case to_datetime (item_state e time) of
           None \<Rightarrow> Inl AttributeError
         | Some item_time \<Rightarrow>
             (let trigger_time = to_today item_time now;
                  w1 = (if isBefore item_time trigger_time
                        then postUpdate time (DateTimeType trigger_time)
                               (log_debug ''Item {} is yesterday, updating to today'' w)
                        else w);
                  state = get_value e time
              in if isBefore trigger_time now \<and> isAfter trigger_time most_recent_time
                 then Inr (trigger_time, get_value e time,
                           log_debug ''NOW:    {} start time {} is in the past but after {}'' w1)
                 else if isAfter trigger_time now
                 then Inr (most_recent_time, most_recent_state,
                           timers_check state trigger_time (Transition state)
                             (log_debug ''FUTURE: {} Scheduleing Timer for {}'' w1))
                 else Inr (most_recent_time, most_recent_state,
                           log_debug
                             ''PAST:   {} start time of {} is before now {} and before {}''
                             w1))))"

text \<open>The loop: an exception leaves it with the effects made so far.\<close>

fun create_timers_loop ::
  "env \<Rightarrow> zdt \<Rightarrow> string list \<Rightarrow> zdt \<Rightarrow> val \<Rightarrow> world \<Rightarrow> world \<times> (error + zdt \<times> val)" where
  "create_timers_loop e now [] most_recent_time most_recent_state w =
     (w, Inr (most_recent_time, most_recent_state))"
| "create_timers_loop e now (time # rest) most_recent_time most_recent_state w =
     (case create_timers_step e now time (most_recent_time, most_recent_state, w) of
        Inl err \<Rightarrow> (w, Inl err)
      | Inr (most_recent_time', most_recent_state', w') \<Rightarrow>
          create_timers_loop e now rest most_recent_time' most_recent_state' w')"

definition create_timers_body :: "env \<Rightarrow> zdt \<Rightarrow> string list \<Rightarrow> world \<Rightarrow> world \<times> (error + unit)" where
  "create_timers_body e now markers w =
     (case create_timers_loop e now markers (minusDays (zone e) now 1) (item_state e ETOD_ITEM) w of
        (w1, Inl err) \<Rightarrow> (w1, Inl err)
      | (w1, Inr (most_recent_time, most_recent_state)) \<Rightarrow>
          (send_command_if_different e ETOD_ITEM most_recent_state
             (log_info ''The current time of day is {}''
                (log_info ''Created {} timers.'' w1)),
           Inr ()))"

definition create_timers :: "env \<Rightarrow> zdt \<Rightarrow> string list \<Rightarrow> world \<Rightarrow> world" where
  "create_timers e now markers w = fst (log_traceback (create_timers_body e now markers w))"

subsection \<open>ephem\_tod (lines 193-237)\<close>

text \<open>The three ways a run ends: the returns of lines 206 and 224, and the end of the body.\<close>

datatype outcome = NoStartTimes | StillUndef | Scheduled

definition reload_target :: "zone \<Rightarrow> zdt \<Rightarrow> zdt" where
  "reload_target z now = withNano z (withSecond z (withMinute z (withHour z now 0) 2) 0) 0"

text \<open>
  \<open>after_init\<close> holds the item states as they are after the five seconds granted to the
  initialisation rule; \<open>now1\<close> is the clock reading of \<open>create_timers\<close> (line 152) and
  \<open>now2\<close> the one of line 232.
\<close>

definition ephem_tod ::
  "env \<Rightarrow> (string \<Rightarrow> val) \<Rightarrow> zdt \<Rightarrow> zdt \<Rightarrow> world \<Rightarrow> world \<times> outcome" where
  "ephem_tod e after_init now1 now2 w0 =
     (case get_times e (log_info ''Recalculating time of day'' w0) of
        (w1, None) \<Rightarrow> (log_error ''No start times found! Cannot run the rule!'' w1, NoStartTimes)
      | (w1, Some []) \<Rightarrow> (log_error ''No start times found! Cannot run the rule!'' w1, NoStartTimes)
      | (w1, Some (t # ts)) \<Rightarrow>
          (let markers = t # ts;
               null_items = filter (\<lambda>i. item_state e i = UnDefType) markers;
               kick = (null_items \<noteq> [] \<and> ''InitItems'' \<in> set (item_names e));
               w2 = (if kick
                     then emit (Sleep 5)
                            (sendCommand ''InitItems'' (StringType ''ON'')
                               (log_warn ''The following Items are are NULL/UNDEF, kicking off initialization using item_init: {}'' w1))
                     else w1);
               e2 = (if kick then e\<lparr>item_state := after_init\<rparr> else e);
               null_items2 = filter (\<lambda>i. item_state e2 i = UnDefType) markers
           in if null_items2 \<noteq> []
              then (log_error ''The following Items are still NULL/UNDEF, cannot create Time of Day timers: {}'' w2,
                    StillUndef)
              else
                (let w3 = create_timers e2 now1 markers (timers_cancel_all w2);
                     reload_time = reload_target (zone e) now2;
                     late = isBefore reload_time now2;
                     reload_time2 = (if late then plusDays (zone e) reload_time 1
                                     else reload_time);
                     w4 = (if late then log_info ''Creating reload timer for {}'' w3 else w3)
                 in (timers_check (StringType ''etod_reload'') reload_time2 Reload w4,
                     Scheduled))))"

subsection \<open>load\_etod (lines 239-264)\<close>

text \<open>
  Lines 259-261: every timer whose name is not among the item names returned by
  \<open>load_rule_with_metadata\<close> is cancelled, when that list is not empty.
\<close>

definition retire :: "string list option \<Rightarrow> world \<Rightarrow> world" where
  "retire etod_items w =
     (case etod_items of
        None \<Rightarrow> w
      | Some [] \<Rightarrow> w
      | Some (n # ns) \<Rightarrow>
          fold timers_cancel
            (filter (\<lambda>i. i \<notin> set (map StringType (n # ns))) (map fst (timers w))) w)"

text \<open>
  \<open>delete_rule\<close> and \<open>load_rule_with_metadata\<close> of \<open>community.rules_utils\<close> are not under
  src/: what they return is passed in as \<open>deleted\<close> and \<open>etod_items\<close>.
\<close>

definition load_etod_body ::
  "env \<Rightarrow> bool \<Rightarrow> string list option \<Rightarrow> (string \<Rightarrow> val) \<Rightarrow> zdt \<Rightarrow> zdt \<Rightarrow> world
     \<Rightarrow> world \<times> outcome option" where
  "load_etod_body e deleted etod_items after_init now1 now2 w =
     (if \<not> deleted then (log_error ''Failed to delete rule!'' w, None)
      else (case ephem_tod e after_init now1 now2 (retire etod_items w) of
              (w', out) \<Rightarrow> (w', Some out)))"

text \<open>The timer callbacks: what runs when a timer with the given action fires.\<close>

definition run_action ::
  "env \<Rightarrow> (string \<Rightarrow> val) \<Rightarrow> zdt \<Rightarrow> zdt \<Rightarrow> action \<Rightarrow> world \<Rightarrow> world" where
  "run_action e after_init now1 now2 a w =
     (case a of
        Transition st \<Rightarrow> etod_transition e st w
      | Reload \<Rightarrow> fst (ephem_tod e after_init now1 now2 w))"

subsection \<open>Notions used in the statements\<close>

text \<open>The fixed order of the hierarchy, highest priority first.\<close>

definition priority :: "string list" where
  "priority = [''custom'', ''holiday'', ''dayset'', ''weekend'', ''weekday'', ''default'']"

text \<open>
  The classifier as section 4.1 of the specification words it. A marker qualifies for a
  category when it carries the category as its type and, for \<open>custom\<close>, its holiday file
  matches today; for \<open>holiday\<close>, today is a recognised holiday; for \<open>dayset\<close>, its named
  day set matches today; for \<open>weekend\<close> and \<open>weekday\<close>, today's weekend status matches;
  \<open>default\<close> is always eligible. The selection resolves to the markers of the first
  category, in the given order, that has any, and to nothing if none has.
\<close>

definition spec_qualifies :: "env \<Rightarrow> string \<Rightarrow> string \<Rightarrow> bool" where
  "spec_qualifies e k i \<longleftrightarrow>
     get_key_value e i ''type'' = Some k \<and>
     (if k = ''custom'' then isBankHolidayFile e (get_key_value e i ''file'')
      else if k = ''holiday'' then isBankHoliday e
      else if k = ''dayset'' then isInDayset e (get_key_value e i ''set'')
      else if k = ''weekend'' then isWeekend e
      else if k = ''weekday'' then \<not> isWeekend e
      else k = ''default'')"

definition spec_markers :: "env \<Rightarrow> string \<Rightarrow> string list" where
  "spec_markers e k = filter (spec_qualifies e k) (item_names e)"

fun spec_select :: "env \<Rightarrow> string list \<Rightarrow> string list option" where
  "spec_select e [] = None"
| "spec_select e (k # ks) =
     (if spec_markers e k \<noteq> [] then Some (spec_markers e k) else spec_select e ks)"

text \<open>Timer requests and commands among the effects.\<close>

definition is_timer_check :: "event \<Rightarrow> bool" where
  "is_timer_check ev = (case ev of TimerCheck n t a \<Rightarrow> True | _ \<Rightarrow> False)"

definition is_command :: "event \<Rightarrow> bool" where
  "is_command ev = (case ev of SendCommand i v \<Rightarrow> True | _ \<Rightarrow> False)"

text \<open>
  The effects of one iteration of the loop of \<open>create_timers\<close> for a marker that
  holds the timestamp \<open>d\<close>, when the most recent time so far is \<open>mrt\<close>.
\<close>

definition step_events :: "env \<Rightarrow> zdt \<Rightarrow> string \<Rightarrow> zdt \<Rightarrow> zdt \<Rightarrow> event list" where
  "step_events e now m d mrt =
     (let t = to_today d now in
      (if isBefore d t
       then [Log DEBUG ''Item {} is yesterday, updating to today'', PostUpdate m (DateTimeType t)]
       else []) @
      (if isBefore t now \<and> isAfter t mrt
       then [Log DEBUG ''NOW:    {} start time {} is in the past but after {}'']
       else if isAfter t now
       then [Log DEBUG ''FUTURE: {} Scheduleing Timer for {}'',
             TimerCheck (get_value e m) t (Transition (get_value e m))]
       else [Log DEBUG ''PAST:   {} start time of {} is before now {} and before {}'']))"

text \<open>
  In \<open>ephem_tod\<close>, for the markers \<open>ms\<close> that \<open>get_times\<close> found: whether the
  initialisation rule is kicked off (lines 209-210), the item states that the rest of the
  run sees, and the effects up to the second check of line 219.
\<close>

definition init_kicked :: "env \<Rightarrow> string list \<Rightarrow> bool" where
  "init_kicked e ms \<longleftrightarrow>
     filter (\<lambda>i. item_state e i = UnDefType) ms \<noteq> [] \<and> ''InitItems'' \<in> set (item_names e)"

definition env_used :: "env \<Rightarrow> (string \<Rightarrow> val) \<Rightarrow> string list \<Rightarrow> env" where
  "env_used e a ms = (if init_kicked e ms then e\<lparr>item_state := a\<rparr> else e)"

definition preamble :: "env \<Rightarrow> string list \<Rightarrow> event list" where
  "preamble e ms =
     [Log INFO ''Recalculating time of day'',
      Log INFO ''Today is a {} day, there are {} time periods today.'']
     @ (if init_kicked e ms
        then [Log WARN ''The following Items are are NULL/UNDEF, kicking off initialization using item_init: {}'',
              SendCommand ''InitItems'' (StringType ''ON''), Sleep 5]
        else [])"

subsection \<open>Sample configurations\<close>

text \<open>A time on a numbered day, to the minute.\<close>

definition at_time :: "int \<Rightarrow> nat \<Rightarrow> nat \<Rightarrow> zdt" where
  "at_time day h m = \<lparr>epoch_day = day, hour = h, minute = m, second = 0, nano = 0\<rparr>"

text \<open>
  Day 100 is a bank holiday. The default markers are a morning at 06:00 and a night at
  20:00 that still carries yesterday's date; the holiday marker is at 09:00. TimeOfDay
  holds NIGHT. The zone has no daylight-saving gap.
\<close>

definition ex_env :: env where
  "ex_env =
     \<lparr>item_names = [''TimeOfDay'', ''vMorning'', ''vNight'', ''vHoliday''],
      item_state = (\<lambda>i. if i = ''vMorning'' then DateTimeType (at_time 100 6 0)
                         else if i = ''vNight'' then DateTimeType (at_time 99 20 0)
                         else if i = ''vHoliday'' then DateTimeType (at_time 100 9 0)
                         else if i = ''TimeOfDay'' then StringType ''NIGHT''
                         else UnDefType),
      get_key_value = (\<lambda>i k. if k = ''type'' \<and> (i = ''vMorning'' \<or> i = ''vNight'')
                              then Some ''default''
                              else if k = ''type'' \<and> i = ''vHoliday'' then Some ''holiday''
                              else None),
      get_value = (\<lambda>i. if i = ''vMorning'' then StringType ''DAY''
                        else if i = ''vNight'' then StringType ''NIGHT''
                        else if i = ''vHoliday'' then StringType ''LAZY''
                        else NoneVal),
      isWeekend = False,
      isBankHoliday = True,
      isInDayset = (\<lambda>s. False),
      isBankHolidayFile = (\<lambda>f. False),
      zone = (\<lambda>d. 0)\<rparr>"

definition ex_ts :: "string \<Rightarrow> zdt" where
  "ex_ts m = (if m = ''vMorning'' then at_time 100 6 0 else at_time 99 20 0)"

text \<open>The world before a first run, and one in which only the reload timer is registered.\<close>

definition w0 :: world where
  "w0 = \<lparr>timers = [], trace = []\<rparr>"

definition w_reload :: world where
  "w_reload = \<lparr>timers = [(StringType ''etod_reload'', at_time 100 0 2, Reload)], trace = []\<rparr>"

text \<open>No item carries metadata.\<close>

definition empty_env :: env where
  "empty_env = ex_env\<lparr>get_key_value := (\<lambda>i k. None)\<rparr>"


text \<open>Two markers with the same instant 06:00, and one at 14:00.\<close>

definition tie_env :: env where
  "tie_env =
     \<lparr>item_names = [''TimeOfDay'', ''vFirst'', ''vSecond'', ''vNow''],
      item_state = (\<lambda>i. if i = ''vFirst'' then DateTimeType (at_time 100 6 0)
                         else if i = ''vSecond'' then DateTimeType (at_time 100 6 0)
                         else if i = ''vNow'' then DateTimeType (at_time 100 14 0)
                         else if i = ''TimeOfDay'' then StringType ''NIGHT''
                         else UnDefType),
      get_key_value = (\<lambda>i k. if k = ''type'' \<and> i \<noteq> ''TimeOfDay'' then Some ''default'' else None),
      get_value = (\<lambda>i. if i = ''vFirst'' then StringType ''FIRST''
                        else if i = ''vSecond'' then StringType ''SECOND''
                        else if i = ''vNow'' then StringType ''NOW''
                        else NoneVal),
      isWeekend = False,
      isBankHoliday = False,
      isInDayset = (\<lambda>s. False),
      isBankHolidayFile = (\<lambda>f. False),
      zone = (\<lambda>d. 0)\<rparr>"

text \<open>A marker that is undefined and stays so, with the item InitItems present.\<close>

definition undef_env :: env where
  "undef_env =
     \<lparr>item_names = [''TimeOfDay'', ''InitItems'', ''vMorning''],
      item_state = (\<lambda>i. if i = ''TimeOfDay'' then StringType ''NIGHT'' else UnDefType),
      get_key_value = (\<lambda>i k. if k = ''type'' \<and> i = ''vMorning'' then Some ''default'' else None),
      get_value = (\<lambda>i. if i = ''vMorning'' then StringType ''DAY'' else NoneVal),
      isWeekend = False,
      isBankHoliday = False,
      isInDayset = (\<lambda>s. False),
      isBankHolidayFile = (\<lambda>f. False),
      zone = (\<lambda>d. 0)\<rparr>"

section \<open>Properties\<close>

subsection \<open>The classifier\<close>

lemma types_type: "i \<in> set (types e ty) \<Longrightarrow> get_key_value e i ''type'' = Some ty"
  by (simp add: types_def)

lemma start_times_type:
  "map_of (start_times e) k = Some l \<Longrightarrow> i \<in> set l \<Longrightarrow> get_key_value e i ''type'' = Some k"
  by (auto simp: start_times_def cond_def types_def split: if_splits)

lemma truthy_iff: "truthy d k = (\<exists>l. map_of d k = Some l \<and> l \<noteq> [])"
  by (auto simp: truthy_def split: option.splits list.splits)

lemma start_times_keys:
  "k \<in> set priority \<Longrightarrow> \<exists>l. map_of (start_times e) k = Some l"
  by (auto simp: priority_def start_times_def)

lemma not_truthy_start_times:
  "k \<in> set priority \<Longrightarrow> \<not> truthy (start_times e) k \<Longrightarrow> map_of (start_times e) k = Some []"
  using start_times_keys [of k e] by (auto simp: truthy_iff)

lemma day_type_Some:
  assumes "day_type st = Some k"
  shows "\<exists>hi lo. priority = hi @ k # lo \<and> truthy st k \<and> (\<forall>h \<in> set hi. \<not> truthy st h)"
proof -
  consider (c) "truthy st ''custom''"
    | (h) "\<not> truthy st ''custom''" "truthy st ''holiday''"
    | (d) "\<not> truthy st ''custom''" "\<not> truthy st ''holiday''" "truthy st ''dayset''"
    | (we) "\<not> truthy st ''custom''" "\<not> truthy st ''holiday''" "\<not> truthy st ''dayset''"
           "truthy st ''weekend''"
    | (wd) "\<not> truthy st ''custom''" "\<not> truthy st ''holiday''" "\<not> truthy st ''dayset''"
           "\<not> truthy st ''weekend''" "truthy st ''weekday''"
    | (df) "\<not> truthy st ''custom''" "\<not> truthy st ''holiday''" "\<not> truthy st ''dayset''"
           "\<not> truthy st ''weekend''" "\<not> truthy st ''weekday''" "truthy st ''default''"
    | (none) "\<not> truthy st ''custom''" "\<not> truthy st ''holiday''" "\<not> truthy st ''dayset''"
           "\<not> truthy st ''weekend''" "\<not> truthy st ''weekday''" "\<not> truthy st ''default''"
    by blast
  then show ?thesis
  proof cases
    case c
    with assms have "k = ''custom''" by (simp add: day_type_def)
    with c have "priority = [] @ k # [''holiday'', ''dayset'', ''weekend'', ''weekday'', ''default'']
        \<and> truthy st k \<and> (\<forall>h \<in> set []. \<not> truthy st h)"
      by (simp add: priority_def)
    then show ?thesis by blast
  next
    case h
    with assms have "k = ''holiday''" by (simp add: day_type_def)
    with h have "priority = [''custom''] @ k # [''dayset'', ''weekend'', ''weekday'', ''default'']
        \<and> truthy st k \<and> (\<forall>h \<in> set [''custom'']. \<not> truthy st h)"
      by (simp add: priority_def)
    then show ?thesis by blast
  next
    case d
    with assms have "k = ''dayset''" by (simp add: day_type_def)
    with d have "priority = [''custom'', ''holiday''] @ k # [''weekend'', ''weekday'', ''default'']
        \<and> truthy st k \<and> (\<forall>h \<in> set [''custom'', ''holiday'']. \<not> truthy st h)"
      by (simp add: priority_def)
    then show ?thesis by blast
  next
    case we
    with assms have "k = ''weekend''" by (simp add: day_type_def)
    with we have "priority = [''custom'', ''holiday'', ''dayset''] @ k # [''weekday'', ''default'']
        \<and> truthy st k \<and> (\<forall>h \<in> set [''custom'', ''holiday'', ''dayset'']. \<not> truthy st h)"
      by (simp add: priority_def)
    then show ?thesis by blast
  next
    case wd
    with assms have "k = ''weekday''" by (simp add: day_type_def)
    with wd have "priority = [''custom'', ''holiday'', ''dayset'', ''weekend''] @ k # [''default'']
        \<and> truthy st k \<and> (\<forall>h \<in> set [''custom'', ''holiday'', ''dayset'', ''weekend'']. \<not> truthy st h)"
      by (simp add: priority_def)
    then show ?thesis by blast
  next
    case df
    with assms have "k = ''default''" by (simp add: day_type_def)
    with df have "priority = [''custom'', ''holiday'', ''dayset'', ''weekend'', ''weekday''] @ k # []
        \<and> truthy st k
        \<and> (\<forall>h \<in> set [''custom'', ''holiday'', ''dayset'', ''weekend'', ''weekday'']. \<not> truthy st h)"
      by (simp add: priority_def)
    then show ?thesis by blast
  next
    case none
    with assms show ?thesis by (simp add: day_type_def)
  qed
qed

lemma day_type_None:
  "day_type st = None \<longleftrightarrow> (\<forall>k \<in> set priority. \<not> truthy st k)"
  by (simp add: day_type_def priority_def)

lemma get_times_Some:
  assumes "snd (get_times e w) = Some xs"
  shows "\<exists>k. day_type (start_times e) = Some k \<and> map_of (start_times e) k = Some xs"
  using assms
  by (auto simp: get_times_def get_times_body_def log_traceback_def getitem_def Let_def
           split: option.splits sum.splits prod.splits)

lemma get_times_cases:
  obtains (none) "get_times e w = (emit (Traceback KeyError) w, None)"
  | (some) ms where "ms \<noteq> []"
      "get_times e w =
         (log_info ''Today is a {} day, there are {} time periods today.'' w, Some ms)"
proof (cases "day_type (start_times e)")
  case None
  then have "get_times e w = (emit (Traceback KeyError) w, None)"
    by (simp add: get_times_def get_times_body_def log_traceback_def getitem_def Let_def)
  then show ?thesis by (rule none)
next
  case (Some k)
  from day_type_Some [OF Some] have "truthy (start_times e) k" by blast
  then obtain t ts where "map_of (start_times e) k = Some (t # ts)"
    by (auto simp: truthy_def split: option.splits list.splits)
  with Some have "get_times e w =
      (log_info ''Today is a {} day, there are {} time periods today.'' w, Some (t # ts))"
    by (simp add: get_times_def get_times_body_def log_traceback_def getitem_def Let_def)
  then show ?thesis using some [of "t # ts"] by simp
qed

lemma get_times_result_frame: "snd (get_times e w) = snd (get_times e v)"
  by (simp add: get_times_def get_times_body_def log_traceback_def Let_def
        split: sum.splits option.splits)

lemma get_times_none:
  assumes "\<forall>k \<in> set priority. map_of (start_times e) k = Some []"
  shows "get_times e w = (emit (Traceback KeyError) w, None)"
proof -
  from assms have "\<forall>k \<in> set priority. \<not> truthy (start_times e) k"
    by (simp add: truthy_iff)
  then have "day_type (start_times e) = None" by (simp add: day_type_None)
  then show ?thesis
    by (simp add: get_times_def get_times_body_def log_traceback_def getitem_def Let_def)
qed

text \<open>The dictionary of lines 102-109 holds, for each category, the markers that qualify.\<close>

lemma spec_qualifies_cases:
  "spec_qualifies e ''default'' = (\<lambda>i. get_key_value e i ''type'' = Some ''default'')"
  "spec_qualifies e ''weekday'' =
     (\<lambda>i. get_key_value e i ''type'' = Some ''weekday'' \<and> \<not> isWeekend e)"
  "spec_qualifies e ''weekend'' =
     (\<lambda>i. get_key_value e i ''type'' = Some ''weekend'' \<and> isWeekend e)"
  "spec_qualifies e ''dayset'' =
     (\<lambda>i. get_key_value e i ''type'' = Some ''dayset'' \<and> isInDayset e (get_key_value e i ''set''))"
  "spec_qualifies e ''holiday'' =
     (\<lambda>i. get_key_value e i ''type'' = Some ''holiday'' \<and> isBankHoliday e)"
  "spec_qualifies e ''custom'' =
     (\<lambda>i. get_key_value e i ''type'' = Some ''custom''
            \<and> isBankHolidayFile e (get_key_value e i ''file''))"
  by (rule ext, simp add: spec_qualifies_def)+

lemma spec_markers_default: "spec_markers e ''default'' = types e ''default''"
  by (simp add: spec_markers_def spec_qualifies_cases types_def)

lemma spec_markers_weekday:
  "spec_markers e ''weekday'' = (if \<not> isWeekend e then types e ''weekday'' else [])"
  by (simp add: spec_markers_def spec_qualifies_cases types_def)

lemma spec_markers_weekend:
  "spec_markers e ''weekend'' = (if isWeekend e then types e ''weekend'' else [])"
  by (simp add: spec_markers_def spec_qualifies_cases types_def)

lemma spec_markers_dayset:
  "spec_markers e ''dayset'' =
     cond (types e ''dayset'') (\<lambda>i. isInDayset e (get_key_value e i ''set''))"
  by (simp add: spec_markers_def spec_qualifies_cases types_def cond_def)

lemma spec_markers_holiday:
  "spec_markers e ''holiday'' = (if isBankHoliday e then types e ''holiday'' else [])"
  by (simp add: spec_markers_def spec_qualifies_cases types_def)

lemma spec_markers_custom:
  "spec_markers e ''custom'' =
     cond (types e ''custom'') (\<lambda>i. isBankHolidayFile e (get_key_value e i ''file''))"
  by (simp add: spec_markers_def spec_qualifies_cases types_def cond_def)

lemma start_times_spec:
  "start_times e =
     [(''default'', spec_markers e ''default''), (''weekday'', spec_markers e ''weekday''),
      (''weekend'', spec_markers e ''weekend''), (''dayset'', spec_markers e ''dayset''),
      (''holiday'', spec_markers e ''holiday''), (''custom'', spec_markers e ''custom'')]"
  unfolding spec_markers_default spec_markers_weekday spec_markers_weekend spec_markers_dayset
    spec_markers_holiday spec_markers_custom
  by (simp only: start_times_def)

lemma start_times_lookup:
  "map_of (start_times e) ''custom'' = Some (spec_markers e ''custom'')"
  "map_of (start_times e) ''holiday'' = Some (spec_markers e ''holiday'')"
  "map_of (start_times e) ''dayset'' = Some (spec_markers e ''dayset'')"
  "map_of (start_times e) ''weekend'' = Some (spec_markers e ''weekend'')"
  "map_of (start_times e) ''weekday'' = Some (spec_markers e ''weekday'')"
  "map_of (start_times e) ''default'' = Some (spec_markers e ''default'')"
  by (simp_all add: start_times_spec)

lemma truthy_spec:
  "truthy (start_times e) ''custom'' \<longleftrightarrow> spec_markers e ''custom'' \<noteq> []"
  "truthy (start_times e) ''holiday'' \<longleftrightarrow> spec_markers e ''holiday'' \<noteq> []"
  "truthy (start_times e) ''dayset'' \<longleftrightarrow> spec_markers e ''dayset'' \<noteq> []"
  "truthy (start_times e) ''weekend'' \<longleftrightarrow> spec_markers e ''weekend'' \<noteq> []"
  "truthy (start_times e) ''weekday'' \<longleftrightarrow> spec_markers e ''weekday'' \<noteq> []"
  "truthy (start_times e) ''default'' \<longleftrightarrow> spec_markers e ''default'' \<noteq> []"
  by (simp_all add: truthy_iff start_times_lookup)

lemma get_times_day_type:
  "snd (get_times e w) =
     (case day_type (start_times e) of None \<Rightarrow> None | Some k \<Rightarrow> map_of (start_times e) k)"
  by (simp add: get_times_def get_times_body_def log_traceback_def getitem_def Let_def
        split: option.splits)

lemma get_times_spec: "snd (get_times e w) = spec_select e priority"
  unfolding get_times_day_type day_type_def truthy_spec priority_def spec_select.simps
  by (simp add: start_times_lookup)

lemma spec_markers_type: "i \<in> set (spec_markers e k) \<Longrightarrow> get_key_value e i ''type'' = Some k"
  by (simp add: spec_markers_def spec_qualifies_def)

lemma spec_select_Some:
  "spec_select e ks = Some xs \<Longrightarrow>
   \<exists>hi k lo. ks = hi @ k # lo \<and> xs = spec_markers e k \<and> xs \<noteq> []
     \<and> (\<forall>h \<in> set hi. spec_markers e h = [])"
proof (induction ks)
  case Nil
  then show ?case by simp
next
  case (Cons a ks)
  show ?case
  proof (cases "spec_markers e a = []")
    case True
    with Cons.prems have "spec_select e ks = Some xs" by simp
    from Cons.IH [OF this] obtain hi k lo where
      "ks = hi @ k # lo" "xs = spec_markers e k" "xs \<noteq> []" "\<forall>h \<in> set hi. spec_markers e h = []"
      by blast
    with True have "a # ks = (a # hi) @ k # lo \<and> xs = spec_markers e k \<and> xs \<noteq> []
        \<and> (\<forall>h \<in> set (a # hi). spec_markers e h = [])"
      by simp
    then show ?thesis by blast
  next
    case False
    with Cons.prems have "a # ks = [] @ a # ks \<and> xs = spec_markers e a \<and> xs \<noteq> []
        \<and> (\<forall>h \<in> set []. spec_markers e h = [])"
      by auto
    then show ?thesis by blast
  qed
qed

lemma spec_select_None: "spec_select e ks = None \<longleftrightarrow> (\<forall>k \<in> set ks. spec_markers e k = [])"
  by (induction ks) auto

text \<open>
  Claim C1. For every configuration and every day, what \<open>get_times\<close> returns is what the
  classifier of the specification selects in the order custom, holiday, dayset, weekend,
  weekday, default. A returned list is therefore the full list of the qualifying markers
  of exactly one category, which is not empty while every category of higher priority
  has no qualifying marker, and it shares no marker with the qualifying markers of any
  other category; nothing is returned exactly when no category has a qualifying marker.
\<close>

theorem get_times_one_category:
  "snd (get_times e w) = spec_select e priority
   \<and> (\<forall>xs. snd (get_times e w) = Some xs \<longrightarrow>
        (\<exists>hi k lo. priority = hi @ k # lo \<and> xs = spec_markers e k \<and> xs \<noteq> []
           \<and> (\<forall>h \<in> set hi. spec_markers e h = [])
           \<and> (\<forall>k'. k' \<noteq> k \<longrightarrow> set (spec_markers e k') \<inter> set xs = {})))
   \<and> (snd (get_times e w) = None \<longleftrightarrow> (\<forall>k \<in> set priority. spec_markers e k = []))"
proof (intro conjI allI impI)
  show "snd (get_times e w) = spec_select e priority" by (rule get_times_spec)
next
  fix xs assume "snd (get_times e w) = Some xs"
  then have "spec_select e priority = Some xs" by (simp add: get_times_spec)
  from spec_select_Some [OF this] obtain hi k lo where
    p: "priority = hi @ k # lo" "xs = spec_markers e k" "xs \<noteq> []"
       "\<forall>h \<in> set hi. spec_markers e h = []"
    by blast
  have "\<forall>k'. k' \<noteq> k \<longrightarrow> set (spec_markers e k') \<inter> set xs = {}"
  proof (intro allI impI)
    fix k' assume "k' \<noteq> k"
    show "set (spec_markers e k') \<inter> set xs = {}"
    proof (rule ccontr)
      assume "set (spec_markers e k') \<inter> set xs \<noteq> {}"
      then obtain x where "x \<in> set (spec_markers e k')" "x \<in> set (spec_markers e k)"
        using p(2) by blast
      then have "get_key_value e x ''type'' = Some k'" and "get_key_value e x ''type'' = Some k"
        using spec_markers_type by blast+
      with \<open>k' \<noteq> k\<close> show False by simp
    qed
  qed
  with p show "\<exists>hi k lo. priority = hi @ k # lo \<and> xs = spec_markers e k \<and> xs \<noteq> []
           \<and> (\<forall>h \<in> set hi. spec_markers e h = [])
           \<and> (\<forall>k'. k' \<noteq> k \<longrightarrow> set (spec_markers e k') \<inter> set xs = {})"
    by blast
next
  show "snd (get_times e w) = None \<longleftrightarrow> (\<forall>k \<in> set priority. spec_markers e k = [])"
    by (simp add: get_times_spec spec_select_None)
qed

text \<open>
  A holiday on which both the holiday and the default category have markers: only the
  holiday marker is returned.
\<close>

lemma ex_start_times:
  "start_times ex_env =
     [(''default'', [''vMorning'', ''vNight'']), (''weekday'', []), (''weekend'', []),
      (''dayset'', []), (''holiday'', [''vHoliday'']), (''custom'', [])]"
  by (simp add: start_times_def types_def cond_def ex_env_def)

lemma ex_get_times: "snd (get_times ex_env w0) = Some [''vHoliday'']"
  by (simp add: get_times_def get_times_body_def log_traceback_def getitem_def Let_def
        ex_start_times day_type_def truthy_def)

theorem get_times_one_category_witness:
  "snd (get_times ex_env w0) = Some [''vHoliday'']
   \<and> spec_select ex_env priority = Some [''vHoliday'']
   \<and> spec_markers ex_env ''default'' = [''vMorning'', ''vNight'']
   \<and> (\<exists>hi k lo. priority = hi @ k # lo \<and> [''vHoliday''] = spec_markers ex_env k
        \<and> (\<forall>h \<in> set hi. spec_markers ex_env h = [])
        \<and> (\<forall>k'. k' \<noteq> k \<longrightarrow> set (spec_markers ex_env k') \<inter> set [''vHoliday''] = {}))"
proof -
  have d: "spec_markers ex_env ''default'' = [''vMorning'', ''vNight'']"
    by (simp add: spec_markers_def spec_qualifies_def ex_env_def)
  note t = get_times_one_category [of ex_env w0]
  from t have "snd (get_times ex_env w0) = spec_select ex_env priority" by (rule conjunct1)
  with ex_get_times have s: "spec_select ex_env priority = Some [''vHoliday'']" by simp
  from t have b: "\<forall>xs. snd (get_times ex_env w0) = Some xs \<longrightarrow>
        (\<exists>hi k lo. priority = hi @ k # lo \<and> xs = spec_markers ex_env k \<and> xs \<noteq> []
           \<and> (\<forall>h \<in> set hi. spec_markers ex_env h = [])
           \<and> (\<forall>k'. k' \<noteq> k \<longrightarrow> set (spec_markers ex_env k') \<inter> set xs = {}))"
    by (rule conjunct1 [OF conjunct2])
  have x: "\<exists>hi k lo. priority = hi @ k # lo \<and> [''vHoliday''] = spec_markers ex_env k
        \<and> [''vHoliday''] \<noteq> []
        \<and> (\<forall>h \<in> set hi. spec_markers ex_env h = [])
        \<and> (\<forall>k'. k' \<noteq> k \<longrightarrow> set (spec_markers ex_env k') \<inter> set [''vHoliday''] = {})"
    by (rule b [rule_format, OF ex_get_times])
  from x have "\<exists>hi k lo. priority = hi @ k # lo \<and> [''vHoliday''] = spec_markers ex_env k
        \<and> (\<forall>h \<in> set hi. spec_markers ex_env h = [])
        \<and> (\<forall>k'. k' \<noteq> k \<longrightarrow> set (spec_markers ex_env k') \<inter> set [''vHoliday''] = {})"
    by blast
  with ex_get_times s d show ?thesis by blast
qed

subsection \<open>The loop of create\_timers\<close>

lemma step_None:
  "to_datetime (item_state e m) = None \<Longrightarrow> create_timers_step e now m (a, b, w) = Inl AttributeError"
  by (simp add: create_timers_step_def)

lemma step_Some:
  assumes "item_state e m = DateTimeType d"
  shows "\<exists>w'. create_timers_step e now m (a, b, w) =
            Inr (if isBefore (to_today d now) now \<and> isAfter (to_today d now) a
                 then (to_today d now, get_value e m, w') else (a, b, w'))
          \<and> trace w' = trace w @ step_events e now m d a
          \<and> timers w' = (if \<not> (isBefore (to_today d now) now \<and> isAfter (to_today d now) a)
                             \<and> isAfter (to_today d now) now
                         then filter (\<lambda>t. fst t \<noteq> get_value e m) (timers w)
                              @ [(get_value e m, to_today d now, Transition (get_value e m))]
                         else timers w)"
  using assms
  by (auto simp: create_timers_step_def to_datetime_def Let_def step_events_def postUpdate_def
        log_debug_def timers_check_def emit_def)

lemma step_cases:
  obtains (fail) "create_timers_step e now m (a, b, w) = Inl AttributeError"
        "\<forall>d. item_state e m \<noteq> DateTimeType d"
  | (ok) d w' where "item_state e m = DateTimeType d"
        "create_timers_step e now m (a, b, w) =
            Inr (if isBefore (to_today d now) now \<and> isAfter (to_today d now) a
                 then (to_today d now, get_value e m, w') else (a, b, w'))"
        "trace w' = trace w @ step_events e now m d a"
        "timers w' = (if \<not> (isBefore (to_today d now) now \<and> isAfter (to_today d now) a)
                             \<and> isAfter (to_today d now) now
                         then filter (\<lambda>t. fst t \<noteq> get_value e m) (timers w)
                              @ [(get_value e m, to_today d now, Transition (get_value e m))]
                         else timers w)"
proof (cases "item_state e m")
  case (DateTimeType d)
  from step_Some [OF this] show ?thesis using ok DateTimeType by blast
qed (use fail in \<open>simp_all add: step_None to_datetime_def\<close>)

lemma step_events_no_command: "filter is_command (step_events e now m d a) = []"
  by (simp add: step_events_def is_command_def Let_def)

lemma step_events_timer_check:
  "filter is_timer_check (step_events e now m d a) =
     (if isAfter (to_today d now) now
      then [TimerCheck (get_value e m) (to_today d now) (Transition (get_value e m))] else [])"
  by (auto simp: step_events_def is_timer_check_def Let_def isAfter_def isBefore_def)

text \<open>The loop never issues a command, whether it completes or fails.\<close>

lemma loop_trace:
  "\<exists>evs. trace (fst (create_timers_loop e now ms a b w)) = trace w @ evs
         \<and> filter is_command evs = []"
proof (induction ms arbitrary: a b w)
  case Nil
  show ?case by simp
next
  case (Cons m ms)
  show ?case
  proof (cases rule: step_cases [of e now m a b w])
    case fail
    then show ?thesis by simp
  next
    case (ok d w')
    let ?q = "isBefore (to_today d now) now \<and> isAfter (to_today d now) a"
    define a' where "a' = (if ?q then to_today d now else a)"
    define b' where "b' = (if ?q then get_value e m else b)"
    from ok(2) have st: "create_timers_step e now m (a, b, w) = Inr (a', b', w')"
      by (simp add: a'_def b'_def)
    from Cons.IH [of a' b' w'] obtain evs where
      "trace (fst (create_timers_loop e now ms a' b' w')) = trace w' @ evs"
      "filter is_command evs = []" by blast
    with ok(3) st have
      "trace (fst (create_timers_loop e now (m # ms) a b w)) = trace w @ (step_events e now m d a @ evs)
       \<and> filter is_command (step_events e now m d a @ evs) = []"
      by (simp add: step_events_no_command)
    then show ?thesis by blast
  qed
qed

lemma loop_append:
  "create_timers_loop e now (xs @ ys) a b w =
     (case create_timers_loop e now xs a b w of
        (w1, Inl err) \<Rightarrow> (w1, Inl err)
      | (w1, Inr (a1, b1)) \<Rightarrow> create_timers_loop e now ys a1 b1 w1)"
  by (induction xs arbitrary: a b w) (auto split: sum.splits prod.splits)

text \<open>The registry after the loop depends on the registry before it only.\<close>

lemma loop_timers_frame:
  "timers w = timers v \<Longrightarrow>
   timers (fst (create_timers_loop e now ms a b w)) = timers (fst (create_timers_loop e now ms a b v))
   \<and> snd (create_timers_loop e now ms a b w) = snd (create_timers_loop e now ms a b v)"
proof (induction ms arbitrary: a b w v)
  case Nil
  then show ?case by simp
next
  case (Cons m ms)
  show ?case
  proof (cases rule: step_cases [of e now m a b w])
    case fail
    then have "create_timers_step e now m (a, b, v) = Inl AttributeError"
      by (cases "item_state e m") (simp_all add: step_None to_datetime_def)
    with fail Cons.prems show ?thesis by simp
  next
    case (ok d w')
    from step_Some [OF ok(1), of now a b v] obtain v' where
      v: "create_timers_step e now m (a, b, v) =
            Inr (if isBefore (to_today d now) now \<and> isAfter (to_today d now) a
                 then (to_today d now, get_value e m, v') else (a, b, v'))"
      and tv: "timers v' = (if \<not> (isBefore (to_today d now) now \<and> isAfter (to_today d now) a)
                             \<and> isAfter (to_today d now) now
                         then filter (\<lambda>t. fst t \<noteq> get_value e m) (timers v)
                              @ [(get_value e m, to_today d now, Transition (get_value e m))]
                         else timers v)"
      by blast
    from ok(4) tv Cons.prems have eq: "timers w' = timers v'" by simp
    show ?thesis
      using ok(2) v Cons.IH [OF eq] by (simp split: if_splits)
  qed
qed

lemma no_command_filter: "filter is_command evs = [] \<Longrightarrow> SendCommand i v \<notin> set evs"
  by (auto simp: filter_empty_conv is_command_def)

lemma loop_resolution:
  assumes "\<forall>m \<in> set ms. item_state e m = DateTimeType (ts m)"
  shows "\<exists>w1 mrt mrs. create_timers_loop e now ms a b w = (w1, Inr (mrt, mrs)) \<and>
     ((mrt = a \<and> mrs = b
        \<and> (\<forall>m \<in> set ms. \<not> (isBefore (to_today (ts m) now) now \<and> isAfter (to_today (ts m) now) a)))
      \<or> (\<exists>xs m ys. ms = xs @ m # ys \<and> mrt = to_today (ts m) now \<and> mrs = get_value e m
            \<and> isBefore mrt now \<and> isAfter mrt a
            \<and> (\<forall>x \<in> set xs. isBefore (to_today (ts x) now) now \<longrightarrow> isBefore (to_today (ts x) now) mrt)
            \<and> (\<forall>y \<in> set ys. isBefore (to_today (ts y) now) now \<longrightarrow> \<not> isAfter (to_today (ts y) now) mrt)))"
  using assms
proof (induction ms arbitrary: a b w)
  case Nil
  show ?case by simp
next
  case (Cons m ms)
  let ?T = "\<lambda>x. to_today (ts x) now"
  from Cons.prems have m: "item_state e m = DateTimeType (ts m)"
    and rest: "\<forall>x \<in> set ms. item_state e x = DateTimeType (ts x)" by simp_all
  from step_Some [OF m, of now a b w] obtain w' where
    st: "create_timers_step e now m (a, b, w) =
            Inr (if isBefore (?T m) now \<and> isAfter (?T m) a
                 then (?T m, get_value e m, w') else (a, b, w'))" by blast
  show ?case
  proof (cases "isBefore (?T m) now \<and> isAfter (?T m) a")
    case True
    with st have eq: "create_timers_loop e now (m # ms) a b w =
        create_timers_loop e now ms (?T m) (get_value e m) w'" by simp
    from Cons.IH [OF rest, of "?T m" "get_value e m" w'] obtain w1 mrt mrs where
      l: "create_timers_loop e now ms (?T m) (get_value e m) w' = (w1, Inr (mrt, mrs))"
      and d: "(mrt = ?T m \<and> mrs = get_value e m
        \<and> (\<forall>x \<in> set ms. \<not> (isBefore (?T x) now \<and> isAfter (?T x) (?T m))))
      \<or> (\<exists>xs m' ys. ms = xs @ m' # ys \<and> mrt = ?T m' \<and> mrs = get_value e m'
            \<and> isBefore mrt now \<and> isAfter mrt (?T m)
            \<and> (\<forall>x \<in> set xs. isBefore (?T x) now \<longrightarrow> isBefore (?T x) mrt)
            \<and> (\<forall>y \<in> set ys. isBefore (?T y) now \<longrightarrow> \<not> isAfter (?T y) mrt))"
      by blast
    from d have "\<exists>xs m' ys. m # ms = xs @ m' # ys \<and> mrt = ?T m' \<and> mrs = get_value e m'
            \<and> isBefore mrt now \<and> isAfter mrt a
            \<and> (\<forall>x \<in> set xs. isBefore (?T x) now \<longrightarrow> isBefore (?T x) mrt)
            \<and> (\<forall>y \<in> set ys. isBefore (?T y) now \<longrightarrow> \<not> isAfter (?T y) mrt)"
    proof
      assume f: "mrt = ?T m \<and> mrs = get_value e m
        \<and> (\<forall>x \<in> set ms. \<not> (isBefore (?T x) now \<and> isAfter (?T x) (?T m)))"
      with True have "m # ms = [] @ m # ms \<and> mrt = ?T m \<and> mrs = get_value e m
            \<and> isBefore mrt now \<and> isAfter mrt a
            \<and> (\<forall>x \<in> set []. isBefore (?T x) now \<longrightarrow> isBefore (?T x) mrt)
            \<and> (\<forall>y \<in> set ms. isBefore (?T y) now \<longrightarrow> \<not> isAfter (?T y) mrt)"
        by simp
      then show ?thesis by blast
    next
      assume "\<exists>xs m' ys. ms = xs @ m' # ys \<and> mrt = ?T m' \<and> mrs = get_value e m'
            \<and> isBefore mrt now \<and> isAfter mrt (?T m)
            \<and> (\<forall>x \<in> set xs. isBefore (?T x) now \<longrightarrow> isBefore (?T x) mrt)
            \<and> (\<forall>y \<in> set ys. isBefore (?T y) now \<longrightarrow> \<not> isAfter (?T y) mrt)"
      then obtain xs m' ys where s: "ms = xs @ m' # ys" "mrt = ?T m'" "mrs = get_value e m'"
        "isBefore mrt now" "isAfter mrt (?T m)"
        "\<forall>x \<in> set xs. isBefore (?T x) now \<longrightarrow> isBefore (?T x) mrt"
        "\<forall>y \<in> set ys. isBefore (?T y) now \<longrightarrow> \<not> isAfter (?T y) mrt" by blast
      from s(5) True have "isAfter mrt a" "isBefore (?T m) mrt"
        by (simp_all add: isAfter_def isBefore_def)
      with s have "m # ms = (m # xs) @ m' # ys \<and> mrt = ?T m' \<and> mrs = get_value e m'
            \<and> isBefore mrt now \<and> isAfter mrt a
            \<and> (\<forall>x \<in> set (m # xs). isBefore (?T x) now \<longrightarrow> isBefore (?T x) mrt)
            \<and> (\<forall>y \<in> set ys. isBefore (?T y) now \<longrightarrow> \<not> isAfter (?T y) mrt)"
        by simp
      then show ?thesis by blast
    qed
    with eq l show ?thesis by simp
  next
    case False
    with st have eq: "create_timers_loop e now (m # ms) a b w =
        create_timers_loop e now ms a b w'" by simp
    from Cons.IH [OF rest, of a b w'] obtain w1 mrt mrs where
      l: "create_timers_loop e now ms a b w' = (w1, Inr (mrt, mrs))"
      and d: "(mrt = a \<and> mrs = b
        \<and> (\<forall>x \<in> set ms. \<not> (isBefore (?T x) now \<and> isAfter (?T x) a)))
      \<or> (\<exists>xs m' ys. ms = xs @ m' # ys \<and> mrt = ?T m' \<and> mrs = get_value e m'
            \<and> isBefore mrt now \<and> isAfter mrt a
            \<and> (\<forall>x \<in> set xs. isBefore (?T x) now \<longrightarrow> isBefore (?T x) mrt)
            \<and> (\<forall>y \<in> set ys. isBefore (?T y) now \<longrightarrow> \<not> isAfter (?T y) mrt))"
      by blast
    from d have "(mrt = a \<and> mrs = b
        \<and> (\<forall>x \<in> set (m # ms). \<not> (isBefore (?T x) now \<and> isAfter (?T x) a)))
      \<or> (\<exists>xs m' ys. m # ms = xs @ m' # ys \<and> mrt = ?T m' \<and> mrs = get_value e m'
            \<and> isBefore mrt now \<and> isAfter mrt a
            \<and> (\<forall>x \<in> set xs. isBefore (?T x) now \<longrightarrow> isBefore (?T x) mrt)
            \<and> (\<forall>y \<in> set ys. isBefore (?T y) now \<longrightarrow> \<not> isAfter (?T y) mrt))"
    proof
      assume "mrt = a \<and> mrs = b
        \<and> (\<forall>x \<in> set ms. \<not> (isBefore (?T x) now \<and> isAfter (?T x) a))"
      with False show ?thesis by simp
    next
      assume "\<exists>xs m' ys. ms = xs @ m' # ys \<and> mrt = ?T m' \<and> mrs = get_value e m'
            \<and> isBefore mrt now \<and> isAfter mrt a
            \<and> (\<forall>x \<in> set xs. isBefore (?T x) now \<longrightarrow> isBefore (?T x) mrt)
            \<and> (\<forall>y \<in> set ys. isBefore (?T y) now \<longrightarrow> \<not> isAfter (?T y) mrt)"
      then obtain xs m' ys where s: "ms = xs @ m' # ys" "mrt = ?T m'" "mrs = get_value e m'"
        "isBefore mrt now" "isAfter mrt a"
        "\<forall>x \<in> set xs. isBefore (?T x) now \<longrightarrow> isBefore (?T x) mrt"
        "\<forall>y \<in> set ys. isBefore (?T y) now \<longrightarrow> \<not> isAfter (?T y) mrt" by blast
      from s(5) False have "isBefore (?T m) now \<longrightarrow> isBefore (?T m) mrt"
        by (auto simp: isAfter_def isBefore_def)
      with s have "m # ms = (m # xs) @ m' # ys \<and> mrt = ?T m' \<and> mrs = get_value e m'
            \<and> isBefore mrt now \<and> isAfter mrt a
            \<and> (\<forall>x \<in> set (m # xs). isBefore (?T x) now \<longrightarrow> isBefore (?T x) mrt)
            \<and> (\<forall>y \<in> set ys. isBefore (?T y) now \<longrightarrow> \<not> isAfter (?T y) mrt)"
        by simp
      then show ?thesis by blast
    qed
    with eq l show ?thesis by simp
  qed
qed

text \<open>With timestamps on all markers, the timers requested are those of the future markers.\<close>

lemma loop_timer_checks:
  assumes "\<forall>m \<in> set ms. item_state e m = DateTimeType (ts m)"
  shows "\<exists>evs. trace (fst (create_timers_loop e now ms a b w)) = trace w @ evs
     \<and> filter is_timer_check evs =
         map (\<lambda>m. TimerCheck (get_value e m) (to_today (ts m) now) (Transition (get_value e m)))
           (filter (\<lambda>m. isAfter (to_today (ts m) now) now) ms)"
  using assms
proof (induction ms arbitrary: a b w)
  case Nil
  show ?case by simp
next
  case (Cons m ms)
  let ?T = "\<lambda>x. to_today (ts x) now"
  let ?q = "isBefore (?T m) now \<and> isAfter (?T m) a"
  from Cons.prems have m: "item_state e m = DateTimeType (ts m)"
    and rest: "\<forall>x \<in> set ms. item_state e x = DateTimeType (ts x)" by simp_all
  from step_Some [OF m, of now a b w] obtain w' where
    st: "create_timers_step e now m (a, b, w) =
            Inr (if ?q then (?T m, get_value e m, w') else (a, b, w'))"
    and tr: "trace w' = trace w @ step_events e now m (ts m) a" by blast
  define a' where "a' = (if ?q then ?T m else a)"
  define b' where "b' = (if ?q then get_value e m else b)"
  from st have eq: "create_timers_loop e now (m # ms) a b w = create_timers_loop e now ms a' b' w'"
    by (simp add: a'_def b'_def)
  from Cons.IH [OF rest, of a' b' w'] obtain evs where
    e1: "trace (fst (create_timers_loop e now ms a' b' w')) = trace w' @ evs"
    and e2: "filter is_timer_check evs =
         map (\<lambda>m. TimerCheck (get_value e m) (?T m) (Transition (get_value e m)))
           (filter (\<lambda>m. isAfter (?T m) now) ms)" by blast
  from eq e1 e2 tr have
    "trace (fst (create_timers_loop e now (m # ms) a b w)) = trace w @ (step_events e now m (ts m) a @ evs)
     \<and> filter is_timer_check (step_events e now m (ts m) a @ evs) =
         map (\<lambda>m. TimerCheck (get_value e m) (?T m) (Transition (get_value e m)))
           (filter (\<lambda>m. isAfter (?T m) now) (m # ms))"
    by (simp add: step_events_timer_check)
  then show ?case by blast
qed

lemma create_timers_unfold:
  "create_timers e now ms w =
     (case create_timers_loop e now ms (minusDays (zone e) now 1) (item_state e ETOD_ITEM) w of
        (w1, Inl err) \<Rightarrow> emit (Traceback err) w1
      | (w1, Inr (mrt, mrs)) \<Rightarrow>
          send_command_if_different e ETOD_ITEM mrs
            (log_info ''The current time of day is {}'' (log_info ''Created {} timers.'' w1)))"
  by (simp add: create_timers_def create_timers_body_def log_traceback_def
        split: prod.splits sum.splits)

lemma create_timers_trace: "\<exists>evs. trace (create_timers e now ms w) = trace w @ evs"
proof -
  obtain w1 r where l: "create_timers_loop e now ms (minusDays (zone e) now 1) (item_state e ETOD_ITEM) w = (w1, r)"
    by force
  from loop_trace [of e now ms "minusDays (zone e) now 1" "item_state e ETOD_ITEM" w] l obtain evs where
    t: "trace w1 = trace w @ evs" by auto
  show ?thesis
  proof (cases r)
    case (Inl err)
    with l t show ?thesis by (simp add: create_timers_unfold emit_def)
  next
    case (Inr p)
    with l t show ?thesis
      by (cases p) (simp add: create_timers_unfold send_command_if_different_def sendCommand_def
            log_info_def emit_def)
  qed
qed

lemma create_timers_timers_frame:
  assumes "timers w = timers v"
  shows "timers (create_timers e now ms w) = timers (create_timers e now ms v)"
proof -
  let ?a = "minusDays (zone e) now 1" and ?b = "item_state e ETOD_ITEM"
  from loop_timers_frame [OF assms, of e now ms ?a ?b]
  have f: "timers (fst (create_timers_loop e now ms ?a ?b w)) =
           timers (fst (create_timers_loop e now ms ?a ?b v))"
    and s: "snd (create_timers_loop e now ms ?a ?b w) = snd (create_timers_loop e now ms ?a ?b v)"
    by simp_all
  obtain w1 r where lw: "create_timers_loop e now ms ?a ?b w = (w1, r)" by force
  obtain v1 r' where lv: "create_timers_loop e now ms ?a ?b v = (v1, r')" by force
  from f s lw lv have "timers w1 = timers v1" "r = r'" by simp_all
  with lw lv show ?thesis
    by (simp add: create_timers_unfold send_command_if_different_def sendCommand_def
          log_info_def emit_def split: sum.splits prod.splits)
qed

lemma stale_iff: "isBefore d (to_today d now) \<longleftrightarrow> epoch_day d < epoch_day now"
  by (simp add: isBefore_def instant_def to_today_def time_of_day_def)

text \<open>
  The definitions that evaluate a run on the sample configurations.
\<close>

lemmas eval_defs =
  create_timers_step_def to_datetime_def to_today_def Let_def isBefore_def isAfter_def
  resolveLocal_def
  instant_def time_of_day_def at_time_def minusDays_def ETOD_ITEM_def
  postUpdate_def log_debug_def log_info_def timers_check_def emit_def w0_def
  create_timers_unfold send_command_if_different_def sendCommand_def

lemma ex_loop_14:
  "create_timers_loop ex_env (at_time 100 14 0) [''vMorning''] (minusDays (zone ex_env) (at_time 100 14 0) 1)
      (item_state ex_env ETOD_ITEM) w0 =
     (\<lparr>timers = [], trace = [Log DEBUG ''NOW:    {} start time {} is in the past but after {}'']\<rparr>,
      Inr (at_time 100 6 0, StringType ''DAY''))"
  by (simp add: eval_defs ex_env_def)

lemma ex_loop_21:
  "snd (create_timers_loop ex_env (at_time 100 21 0) [''vMorning'', ''vNight'']
      (minusDays (zone ex_env) (at_time 100 21 0) 1) (item_state ex_env ETOD_ITEM) w0) =
      Inr (at_time 100 20 0, item_state ex_env ETOD_ITEM)"
  by (simp add: eval_defs ex_env_def)

text \<open>
  The sample configuration at 14:00: the morning marker (06:00) is the most recent past
  one, the night marker, dated yesterday 20:00, is rolled to today and scheduled.
\<close>

lemma ex_ts_holds:
  "\<forall>m \<in> set [''vMorning'', ''vNight'']. item_state ex_env m = DateTimeType (ex_ts m)"
  by (simp add: ex_env_def ex_ts_def)

subsection \<open>Resolution of the current period\<close>

text \<open>
  Claim C2, as amended. When every marker holds a timestamp the loop completes, and the
  resolved pair is either the baseline (no marker is both strictly before now and after
  the baseline) or the trigger instant and state of a marker that is strictly before now,
  strictly later than every past marker processed before it and not earlier than any past
  marker processed after it: among equal instants the first processed wins. The timers
  requested are, in processing order, exactly those of the markers whose trigger instant
  is strictly after now, each bound to the marker's state, and the resolved state is then
  applied to the TimeOfDay item.
\<close>

theorem create_timers_latest_past_first_wins:
  assumes "\<forall>m \<in> set ms. item_state e m = DateTimeType (ts m)"
  shows "\<exists>w1 mrt mrs evs.
      create_timers_loop e now ms (minusDays (zone e) now 1) (item_state e ETOD_ITEM) w = (w1, Inr (mrt, mrs))
    \<and> ((mrt = minusDays (zone e) now 1 \<and> mrs = item_state e ETOD_ITEM
         \<and> (\<forall>m \<in> set ms. \<not> (isBefore (to_today (ts m) now) now
                               \<and> isAfter (to_today (ts m) now) (minusDays (zone e) now 1))))
       \<or> (\<exists>xs m ys. ms = xs @ m # ys \<and> mrt = to_today (ts m) now \<and> mrs = get_value e m
            \<and> isBefore mrt now \<and> isAfter mrt (minusDays (zone e) now 1)
            \<and> (\<forall>x \<in> set xs. isBefore (to_today (ts x) now) now \<longrightarrow> isBefore (to_today (ts x) now) mrt)
            \<and> (\<forall>y \<in> set ys. isBefore (to_today (ts y) now) now \<longrightarrow> \<not> isAfter (to_today (ts y) now) mrt)))
    \<and> trace w1 = trace w @ evs
    \<and> filter is_timer_check evs =
         map (\<lambda>m. TimerCheck (get_value e m) (to_today (ts m) now) (Transition (get_value e m)))
           (filter (\<lambda>m. isAfter (to_today (ts m) now) now) ms)
    \<and> trace (create_timers e now ms w) =
         trace w1 @ [Log INFO ''Created {} timers.'', Log INFO ''The current time of day is {}'']
           @ (if mrs \<noteq> item_state e ETOD_ITEM then [SendCommand ETOD_ITEM mrs] else [])"
proof -
  let ?a = "minusDays (zone e) now 1" and ?b = "item_state e ETOD_ITEM"
  from loop_resolution [OF assms, of now ?a ?b w] obtain w1 mrt mrs where
    l: "create_timers_loop e now ms ?a ?b w = (w1, Inr (mrt, mrs))"
    and r: "(mrt = ?a \<and> mrs = ?b
         \<and> (\<forall>m \<in> set ms. \<not> (isBefore (to_today (ts m) now) now \<and> isAfter (to_today (ts m) now) ?a)))
       \<or> (\<exists>xs m ys. ms = xs @ m # ys \<and> mrt = to_today (ts m) now \<and> mrs = get_value e m
            \<and> isBefore mrt now \<and> isAfter mrt ?a
            \<and> (\<forall>x \<in> set xs. isBefore (to_today (ts x) now) now \<longrightarrow> isBefore (to_today (ts x) now) mrt)
            \<and> (\<forall>y \<in> set ys. isBefore (to_today (ts y) now) now \<longrightarrow> \<not> isAfter (to_today (ts y) now) mrt))"
    by blast
  from loop_timer_checks [OF assms, of now ?a ?b w] l obtain evs where
    t: "trace w1 = trace w @ evs"
    and c: "filter is_timer_check evs =
         map (\<lambda>m. TimerCheck (get_value e m) (to_today (ts m) now) (Transition (get_value e m)))
           (filter (\<lambda>m. isAfter (to_today (ts m) now) now) ms)"
    by auto
  from l have f: "trace (create_timers e now ms w) =
         trace w1 @ [Log INFO ''Created {} timers.'', Log INFO ''The current time of day is {}'']
           @ (if mrs \<noteq> ?b then [SendCommand ETOD_ITEM mrs] else [])"
    by (simp add: create_timers_unfold send_command_if_different_def sendCommand_def
          log_info_def emit_def)
  from l r t c f show ?thesis by blast
qed

theorem create_timers_latest_past_first_wins_witness:
  "item_state ex_env ''vMorning'' = DateTimeType (ex_ts ''vMorning'')
   \<and> item_state ex_env ''vNight'' = DateTimeType (ex_ts ''vNight'')
   \<and> (\<exists>w1 evs.
        create_timers_loop ex_env (at_time 100 14 0) [''vMorning'', ''vNight'']
          (minusDays (zone ex_env) (at_time 100 14 0) 1) (item_state ex_env ETOD_ITEM) w0 =
          (w1, Inr (at_time 100 6 0, StringType ''DAY''))
      \<and> trace w1 = trace w0 @ evs
      \<and> filter is_timer_check evs =
          [TimerCheck (StringType ''NIGHT'') (at_time 100 20 0) (Transition (StringType ''NIGHT''))]
      \<and> trace (create_timers ex_env (at_time 100 14 0) [''vMorning'', ''vNight''] w0) =
          trace w1 @ [Log INFO ''Created {} timers.'', Log INFO ''The current time of day is {}'',
                      SendCommand ''TimeOfDay'' (StringType ''DAY'')])"
proof -
  let ?now = "at_time 100 14 0" and ?ms = "[''vMorning'', ''vNight'']"
  from create_timers_latest_past_first_wins [OF ex_ts_holds, of ?now w0]
  obtain w1 mrt mrs evs where
    l: "create_timers_loop ex_env ?now ?ms (minusDays (zone ex_env) ?now 1) (item_state ex_env ETOD_ITEM) w0 =
          (w1, Inr (mrt, mrs))"
    and t: "trace w1 = trace w0 @ evs"
    and c: "filter is_timer_check evs =
         map (\<lambda>m. TimerCheck (get_value ex_env m) (to_today (ex_ts m) ?now)
                     (Transition (get_value ex_env m)))
           (filter (\<lambda>m. isAfter (to_today (ex_ts m) ?now) ?now) ?ms)"
    and f: "trace (create_timers ex_env ?now ?ms w0) =
         trace w1 @ [Log INFO ''Created {} timers.'', Log INFO ''The current time of day is {}'']
           @ (if mrs \<noteq> item_state ex_env ETOD_ITEM then [SendCommand ETOD_ITEM mrs] else [])"
    by blast
  have r: "snd (create_timers_loop ex_env ?now ?ms (minusDays (zone ex_env) ?now 1)
                 (item_state ex_env ETOD_ITEM) w0) = Inr (at_time 100 6 0, StringType ''DAY'')"
    by (simp add: eval_defs ex_env_def)
  with l have mm: "mrt = at_time 100 6 0" "mrs = StringType ''DAY''" by simp_all
  from c have c': "filter is_timer_check evs =
          [TimerCheck (StringType ''NIGHT'') (at_time 100 20 0) (Transition (StringType ''NIGHT''))]"
    by (simp add: eval_defs ex_env_def ex_ts_def)
  from f mm have f': "trace (create_timers ex_env ?now ?ms w0) =
          trace w1 @ [Log INFO ''Created {} timers.'', Log INFO ''The current time of day is {}'',
                      SendCommand ''TimeOfDay'' (StringType ''DAY'')]"
    by (simp add: ex_env_def ETOD_ITEM_def)
  have h: "item_state ex_env ''vMorning'' = DateTimeType (ex_ts ''vMorning'')
     \<and> item_state ex_env ''vNight'' = DateTimeType (ex_ts ''vNight'')"
    by (simp add: ex_env_def ex_ts_def)
  from l mm t c' f' h show ?thesis by blast
qed

text \<open>
  Claim C2 as stated fails on the code. Two markers with the same past instant 06:00:
  the first one processed provides the state, not the last. A marker whose instant is
  exactly now is at or before now and later than the baseline, yet it is neither applied
  (no command although TimeOfDay holds another value) nor scheduled.
\<close>

theorem last_wins_counterexample:
  "snd (create_timers_loop tie_env (at_time 100 14 0) [''vFirst'', ''vSecond'']
          (minusDays (zone tie_env) (at_time 100 14 0) 1) (item_state tie_env ETOD_ITEM) w0) =
     Inr (at_time 100 6 0, StringType ''FIRST'')
   \<and> item_state tie_env ''vSecond'' = DateTimeType (at_time 100 6 0)
   \<and> get_value tie_env ''vSecond'' = StringType ''SECOND''
   \<and> item_state tie_env ''vNow'' = DateTimeType (at_time 100 14 0)
   \<and> create_timers tie_env (at_time 100 14 0) [''vNow''] w0 =
       \<lparr>timers = [],
        trace = [Log DEBUG ''PAST:   {} start time of {} is before now {} and before {}'',
                 Log INFO ''Created {} timers.'', Log INFO ''The current time of day is {}'']\<rparr>"
  by (simp add: eval_defs tie_env_def)

text \<open>
  Claim C3. The loop starts from the instant one day before now and the current value of
  the TimeOfDay item. When no marker's trigger instant is both before now and after that
  baseline, the loop ends with exactly this pair, so the resolved state is the value the
  item already has, and \<open>create_timers\<close> issues no command.
\<close>

theorem baseline_preserved_without_past_marker:
  assumes "\<forall>m \<in> set ms. item_state e m = DateTimeType (ts m)"
    and "\<forall>m \<in> set ms. \<not> (isBefore (to_today (ts m) now) now
                          \<and> isAfter (to_today (ts m) now) (minusDays (zone e) now 1))"
  shows "\<exists>w1 evs.
      create_timers_loop e now ms (minusDays (zone e) now 1) (item_state e ETOD_ITEM) w =
        (w1, Inr (minusDays (zone e) now 1, item_state e ETOD_ITEM))
    \<and> trace (create_timers e now ms w) = trace w @ evs
    \<and> (\<forall>i v. SendCommand i v \<notin> set evs)"
proof -
  let ?a = "minusDays (zone e) now 1" and ?b = "item_state e ETOD_ITEM"
  from loop_resolution [OF assms(1), of now ?a ?b w] obtain w1 mrt mrs where
    l: "create_timers_loop e now ms ?a ?b w = (w1, Inr (mrt, mrs))"
    and r: "(mrt = ?a \<and> mrs = ?b
         \<and> (\<forall>m \<in> set ms. \<not> (isBefore (to_today (ts m) now) now \<and> isAfter (to_today (ts m) now) ?a)))
       \<or> (\<exists>xs m ys. ms = xs @ m # ys \<and> mrt = to_today (ts m) now \<and> mrs = get_value e m
            \<and> isBefore mrt now \<and> isAfter mrt ?a
            \<and> (\<forall>x \<in> set xs. isBefore (to_today (ts x) now) now \<longrightarrow> isBefore (to_today (ts x) now) mrt)
            \<and> (\<forall>y \<in> set ys. isBefore (to_today (ts y) now) now \<longrightarrow> \<not> isAfter (to_today (ts y) now) mrt))"
    by blast
  from r assms(2) have same: "mrt = ?a \<and> mrs = ?b" by auto
  from loop_trace [of e now ms ?a ?b w] l obtain evs where
    t: "trace w1 = trace w @ evs" and n: "filter is_command evs = []" by auto
  let ?evs = "evs @ [Log INFO ''Created {} timers.'', Log INFO ''The current time of day is {}'']"
  from l same t have "trace (create_timers e now ms w) = trace w @ ?evs"
    by (simp add: create_timers_unfold send_command_if_different_def log_info_def emit_def)
  moreover from n have "\<forall>i v. SendCommand i v \<notin> set ?evs"
    by (auto dest: no_command_filter)
  ultimately show ?thesis using l same by blast
qed

theorem baseline_preserved_without_past_marker_witness:
  "item_state ex_env ''vMorning'' = DateTimeType (ex_ts ''vMorning'')
   \<and> item_state ex_env ''vNight'' = DateTimeType (ex_ts ''vNight'')
   \<and> \<not> isBefore (to_today (ex_ts ''vMorning'') (at_time 100 5 0)) (at_time 100 5 0)
   \<and> \<not> isBefore (to_today (ex_ts ''vNight'') (at_time 100 5 0)) (at_time 100 5 0)
   \<and> (\<exists>w1 evs.
        create_timers_loop ex_env (at_time 100 5 0) [''vMorning'', ''vNight'']
          (minusDays (zone ex_env) (at_time 100 5 0) 1) (item_state ex_env ETOD_ITEM) w0 =
          (w1, Inr (minusDays (zone ex_env) (at_time 100 5 0) 1, StringType ''NIGHT''))
      \<and> trace (create_timers ex_env (at_time 100 5 0) [''vMorning'', ''vNight''] w0) = trace w0 @ evs
      \<and> (\<forall>i v. SendCommand i v \<notin> set evs))"
proof -
  let ?now = "at_time 100 5 0" and ?ms = "[''vMorning'', ''vNight'']"
  have n1: "\<not> isBefore (to_today (ex_ts ''vMorning'') ?now) ?now"
    and n2: "\<not> isBefore (to_today (ex_ts ''vNight'') ?now) ?now"
    by (simp_all add: eval_defs ex_ts_def)
  then have h2: "\<forall>m \<in> set ?ms. \<not> (isBefore (to_today (ex_ts m) ?now) ?now
                          \<and> isAfter (to_today (ex_ts m) ?now) (minusDays (zone ex_env) ?now 1))"
    by simp
  have h: "item_state ex_env ''vMorning'' = DateTimeType (ex_ts ''vMorning'')
     \<and> item_state ex_env ''vNight'' = DateTimeType (ex_ts ''vNight'')"
    by (simp add: ex_env_def ex_ts_def)
  have b: "item_state ex_env ETOD_ITEM = StringType ''NIGHT''"
    by (simp add: ex_env_def ETOD_ITEM_def)
  from baseline_preserved_without_past_marker [OF ex_ts_holds h2, of w0] b h n1 n2
  show ?thesis by simp
qed

text \<open>
  Claim C4. When the loop reaches a marker whose stored date is before today, the first
  effects of its iteration are the debug message and the update of the marker to today's
  date with its own time of day; the classification, and the timer request if the instant
  is in the future, come after it and use that same instant.
\<close>

theorem stale_marker_updated_before_scheduling:
  assumes "create_timers_loop e now xs a b w = (w1, Inr (a1, b1))"
    and "item_state e m = DateTimeType d"
    and "epoch_day d < epoch_day now"
  shows "\<exists>evs. trace (fst (create_timers_loop e now (xs @ m # ys) a b w)) =
            trace w1
            @ [Log DEBUG ''Item {} is yesterday, updating to today'',
               PostUpdate m (DateTimeType (to_today d now))]
            @ (if isBefore (to_today d now) now \<and> isAfter (to_today d now) a1
               then [Log DEBUG ''NOW:    {} start time {} is in the past but after {}'']
               else if isAfter (to_today d now) now
               then [Log DEBUG ''FUTURE: {} Scheduleing Timer for {}'',
                     TimerCheck (get_value e m) (to_today d now) (Transition (get_value e m))]
               else [Log DEBUG ''PAST:   {} start time of {} is before now {} and before {}''])
            @ evs
       \<and> epoch_day (to_today d now) = epoch_day now
       \<and> time_of_day (to_today d now) = time_of_day d"
proof -
  let ?q = "isBefore (to_today d now) now \<and> isAfter (to_today d now) a1"
  from assms(1) have eq: "create_timers_loop e now (xs @ m # ys) a b w =
      create_timers_loop e now (m # ys) a1 b1 w1"
    by (simp add: loop_append)
  from step_Some [OF assms(2), of now a1 b1 w1] obtain w' where
    st: "create_timers_step e now m (a1, b1, w1) =
            Inr (if ?q then (to_today d now, get_value e m, w') else (a1, b1, w'))"
    and tr: "trace w' = trace w1 @ step_events e now m d a1" by blast
  define a' where "a' = (if ?q then to_today d now else a1)"
  define b' where "b' = (if ?q then get_value e m else b1)"
  from st have eq2: "create_timers_loop e now (m # ys) a1 b1 w1 = create_timers_loop e now ys a' b' w'"
    by (simp add: a'_def b'_def)
  from loop_trace [of e now ys a' b' w'] obtain evs where
    ev: "trace (fst (create_timers_loop e now ys a' b' w')) = trace w' @ evs" by blast
  from assms(3) have stale: "isBefore d (to_today d now)" by (simp add: stale_iff)
  from eq eq2 ev tr stale have
    "trace (fst (create_timers_loop e now (xs @ m # ys) a b w)) =
            trace w1
            @ [Log DEBUG ''Item {} is yesterday, updating to today'',
               PostUpdate m (DateTimeType (to_today d now))]
            @ (if ?q
               then [Log DEBUG ''NOW:    {} start time {} is in the past but after {}'']
               else if isAfter (to_today d now) now
               then [Log DEBUG ''FUTURE: {} Scheduleing Timer for {}'',
                     TimerCheck (get_value e m) (to_today d now) (Transition (get_value e m))]
               else [Log DEBUG ''PAST:   {} start time of {} is before now {} and before {}''])
            @ evs"
    by (simp add: step_events_def Let_def)
  moreover have "epoch_day (to_today d now) = epoch_day now
       \<and> time_of_day (to_today d now) = time_of_day d"
    by (simp add: to_today_def time_of_day_def)
  ultimately show ?thesis by blast
qed

theorem stale_marker_updated_before_scheduling_witness:
  "create_timers_loop ex_env (at_time 100 14 0) [''vMorning''] (minusDays (zone ex_env) (at_time 100 14 0) 1)
      (item_state ex_env ETOD_ITEM) w0 =
     (\<lparr>timers = [], trace = [Log DEBUG ''NOW:    {} start time {} is in the past but after {}'']\<rparr>,
      Inr (at_time 100 6 0, StringType ''DAY''))
   \<and> item_state ex_env ''vNight'' = DateTimeType (at_time 99 20 0)
   \<and> epoch_day (at_time 99 20 0) < epoch_day (at_time 100 14 0)
   \<and> (\<exists>evs. trace (fst (create_timers_loop ex_env (at_time 100 14 0) ([''vMorning''] @ ''vNight'' # [])
                 (minusDays (zone ex_env) (at_time 100 14 0) 1) (item_state ex_env ETOD_ITEM) w0)) =
        [Log DEBUG ''NOW:    {} start time {} is in the past but after {}'',
         Log DEBUG ''Item {} is yesterday, updating to today'',
         PostUpdate ''vNight'' (DateTimeType (at_time 100 20 0)),
         Log DEBUG ''FUTURE: {} Scheduleing Timer for {}'',
         TimerCheck (StringType ''NIGHT'') (at_time 100 20 0) (Transition (StringType ''NIGHT''))]
        @ evs)"
proof -
  have d: "item_state ex_env ''vNight'' = DateTimeType (at_time 99 20 0)"
    by (simp add: ex_env_def)
  have s: "epoch_day (at_time 99 20 0) < epoch_day (at_time 100 14 0)"
    by (simp add: at_time_def)
  from stale_marker_updated_before_scheduling [OF ex_loop_14 d s, of "[]"] ex_loop_14 d s
  show ?thesis by (simp add: eval_defs ex_env_def)
qed

text \<open>
  Claim C8. Every command \<open>create_timers\<close> issues goes to the TimeOfDay item and carries a
  value different from the one the item holds; when the resolved state equals the current
  value, no command is issued at all.
\<close>

theorem command_only_if_different:
  "\<exists>evs. trace (create_timers e now ms w) = trace w @ evs
     \<and> (\<forall>i v. SendCommand i v \<in> set evs \<longrightarrow> i = ETOD_ITEM \<and> v \<noteq> item_state e ETOD_ITEM)
     \<and> (\<forall>w1 mrt. create_timers_loop e now ms (minusDays (zone e) now 1) (item_state e ETOD_ITEM) w =
                    (w1, Inr (mrt, item_state e ETOD_ITEM))
           \<longrightarrow> (\<forall>i v. SendCommand i v \<notin> set evs))"
proof -
  let ?a = "minusDays (zone e) now 1" and ?b = "item_state e ETOD_ITEM"
  obtain w1 r where l: "create_timers_loop e now ms ?a ?b w = (w1, r)" by force
  from loop_trace [of e now ms ?a ?b w] l obtain evs where
    t: "trace w1 = trace w @ evs" and n: "filter is_command evs = []" by auto
  from n have nc: "\<And>i v. SendCommand i v \<notin> set evs" by (rule no_command_filter)
  show ?thesis
  proof (cases r)
    case (Inl err)
    with l t have "trace (create_timers e now ms w) = trace w @ (evs @ [Traceback err])"
      by (simp add: create_timers_unfold emit_def)
    moreover from nc have "\<forall>i v. SendCommand i v \<notin> set (evs @ [Traceback err])" by simp
    ultimately show ?thesis by blast
  next
    case (Inr p)
    obtain mrt mrs where p: "p = (mrt, mrs)" by force
    let ?evs = "evs @ [Log INFO ''Created {} timers.'', Log INFO ''The current time of day is {}'']
           @ (if mrs \<noteq> ?b then [SendCommand ETOD_ITEM mrs] else [])"
    from l t Inr p have tr: "trace (create_timers e now ms w) = trace w @ ?evs"
      by (simp add: create_timers_unfold send_command_if_different_def sendCommand_def
            log_info_def emit_def)
    from nc have c1: "\<forall>i v. SendCommand i v \<in> set ?evs \<longrightarrow> i = ETOD_ITEM \<and> v \<noteq> ?b"
      by auto
    from nc l Inr p have c2: "\<forall>w1 mrt. create_timers_loop e now ms ?a ?b w = (w1, Inr (mrt, ?b))
           \<longrightarrow> (\<forall>i v. SendCommand i v \<notin> set ?evs)"
      by auto
    from tr c1 c2 show ?thesis by blast
  qed
qed

theorem command_only_if_different_witness:
  "snd (create_timers_loop ex_env (at_time 100 21 0) [''vMorning'', ''vNight'']
      (minusDays (zone ex_env) (at_time 100 21 0) 1) (item_state ex_env ETOD_ITEM) w0) =
      Inr (at_time 100 20 0, item_state ex_env ETOD_ITEM)
   \<and> (\<exists>evs. trace (create_timers ex_env (at_time 100 21 0) [''vMorning'', ''vNight''] w0) =
               trace w0 @ evs
        \<and> (\<forall>i v. SendCommand i v \<notin> set evs))"
proof -
  let ?now = "at_time 100 21 0" and ?ms = "[''vMorning'', ''vNight'']"
  obtain w1 where l: "create_timers_loop ex_env ?now ?ms (minusDays (zone ex_env) ?now 1)
      (item_state ex_env ETOD_ITEM) w0 = (w1, Inr (at_time 100 20 0, item_state ex_env ETOD_ITEM))"
    using ex_loop_21 by (metis prod.collapse)
  from command_only_if_different [of ex_env ?now ?ms w0] l
  have "\<exists>evs. trace (create_timers ex_env ?now ?ms w0) = trace w0 @ evs
        \<and> (\<forall>i v. SendCommand i v \<notin> set evs)"
    by blast
  with ex_loop_21 show ?thesis by blast
qed

subsection \<open>Runs of ephem\_tod\<close>




text \<open>A run of \<open>ephem_tod\<close> for which \<open>get_times\<close> has found markers.\<close>

lemma ephem_tod_some:
  assumes "snd (get_times e v) = Some ms"
  shows "ms \<noteq> []"
    and "ephem_tod e a n1 n2 w =
      (if filter (\<lambda>i. item_state (env_used e a ms) i = UnDefType) ms \<noteq> []
       then (w\<lparr>trace := trace w @ preamble e ms @
                 [Log ERROR ''The following Items are still NULL/UNDEF, cannot create Time of Day timers: {}'']\<rparr>,
             StillUndef)
       else (timers_check (StringType ''etod_reload'')
            (if isBefore (reload_target (zone e) n2) n2 then plusDays (zone e) (reload_target (zone e) n2) 1
             else reload_target (zone e) n2) Reload
            ((if isBefore (reload_target (zone e) n2) n2 then log_info ''Creating reload timer for {}''
              else id)
               (create_timers (env_used e a ms) n1 ms
                  (timers_cancel_all (w\<lparr>trace := trace w @ preamble e ms\<rparr>)))),
          Scheduled))"
proof -
  let ?w = "log_info ''Recalculating time of day'' w"
  from assms have r: "snd (get_times e ?w) = Some ms"
    using get_times_result_frame [of e ?w v] by simp
  have g: "get_times e ?w =
      (log_info ''Today is a {} day, there are {} time periods today.'' ?w, Some ms) \<and> ms \<noteq> []"
  proof (cases rule: get_times_cases [of e ?w])
    case none
    with r show ?thesis by simp
  next
    case (some ms')
    with r show ?thesis by simp
  qed
  then show "ms \<noteq> []" by simp
  from g show "ephem_tod e a n1 n2 w =
      (if filter (\<lambda>i. item_state (env_used e a ms) i = UnDefType) ms \<noteq> []
       then (w\<lparr>trace := trace w @ preamble e ms @
                 [Log ERROR ''The following Items are still NULL/UNDEF, cannot create Time of Day timers: {}'']\<rparr>,
             StillUndef)
       else (timers_check (StringType ''etod_reload'')
            (if isBefore (reload_target (zone e) n2) n2 then plusDays (zone e) (reload_target (zone e) n2) 1
             else reload_target (zone e) n2) Reload
            ((if isBefore (reload_target (zone e) n2) n2 then log_info ''Creating reload timer for {}''
              else id)
               (create_timers (env_used e a ms) n1 ms
                  (timers_cancel_all (w\<lparr>trace := trace w @ preamble e ms\<rparr>)))),
          Scheduled))"
    unfolding env_used_def preamble_def init_kicked_def
    by (cases ms)
       (simp_all add: ephem_tod_def Let_def log_info_def log_warn_def log_error_def
          sendCommand_def emit_def del: filter.simps)
qed

lemma ephem_tod_none:
  assumes "snd (get_times e v) = None"
  shows "ephem_tod e a n1 n2 w =
         (w\<lparr>trace := trace w @ [Log INFO ''Recalculating time of day'', Traceback KeyError,
                                 Log ERROR ''No start times found! Cannot run the rule!'']\<rparr>,
          NoStartTimes)"
proof -
  let ?w = "log_info ''Recalculating time of day'' w"
  from assms have r: "snd (get_times e ?w) = None"
    using get_times_result_frame [of e ?w v] by simp
  have "get_times e ?w = (emit (Traceback KeyError) ?w, None)"
  proof (cases rule: get_times_cases [of e ?w])
    case none
    then show ?thesis .
  next
    case (some ms')
    with r show ?thesis by simp
  qed
  then show ?thesis
    by (simp add: ephem_tod_def log_info_def log_error_def emit_def)
qed

lemma ephem_tod_scheduled:
  assumes "snd (ephem_tod e a n1 n2 w) = Scheduled"
  obtains ms where "snd (get_times e w) = Some ms"
    and "ephem_tod e a n1 n2 w =
       (timers_check (StringType ''etod_reload'')
            (if isBefore (reload_target (zone e) n2) n2 then plusDays (zone e) (reload_target (zone e) n2) 1
             else reload_target (zone e) n2) Reload
            ((if isBefore (reload_target (zone e) n2) n2 then log_info ''Creating reload timer for {}''
              else id)
               (create_timers (env_used e a ms) n1 ms
                  (timers_cancel_all (w\<lparr>trace := trace w @ preamble e ms\<rparr>)))),
          Scheduled)"
proof (cases "snd (get_times e w)")
  case None
  from ephem_tod_none [OF None, of a n1 n2 w] assms show ?thesis by simp
next
  case (Some ms)
  from ephem_tod_some(2) [OF Some, of a n1 n2 w] assms that [OF Some] show ?thesis
    by (simp split: if_splits)
qed

lemma ephem_tod_outcome_frame:
  "snd (ephem_tod e a n1 n2 w) = snd (ephem_tod e a n1 n2 v)"
proof (cases "snd (get_times e w)")
  case None
  from ephem_tod_none [OF None, of a n1 n2 w] ephem_tod_none [OF None, of a n1 n2 v]
  show ?thesis by simp
next
  case (Some ms)
  from ephem_tod_some(2) [OF Some, of a n1 n2 w] ephem_tod_some(2) [OF Some, of a n1 n2 v]
  show ?thesis by simp
qed

text \<open>The registry a scheduling run leaves does not depend on the world it starts in.\<close>

lemma ephem_tod_timers_frame:
  assumes "snd (ephem_tod e a n1 n2 w) = Scheduled"
  shows "timers (fst (ephem_tod e a n1 n2 w)) = timers (fst (ephem_tod e a n1 n2 v))"
proof -
  let ?rt = "if isBefore (reload_target (zone e) n2) n2 then plusDays (zone e) (reload_target (zone e) n2) 1
             else reload_target (zone e) n2"
  let ?lg = "if isBefore (reload_target (zone e) n2) n2 then log_info ''Creating reload timer for {}''
             else id"
  from assms obtain ms where ms: "snd (get_times e w) = Some ms"
    and sw: "ephem_tod e a n1 n2 w =
       (timers_check (StringType ''etod_reload'') ?rt Reload
          (?lg (create_timers (env_used e a ms) n1 ms
                  (timers_cancel_all (w\<lparr>trace := trace w @ preamble e ms\<rparr>)))),
        Scheduled)"
    by (rule ephem_tod_scheduled)
  from assms have "snd (ephem_tod e a n1 n2 v) = Scheduled"
    using ephem_tod_outcome_frame [of e a n1 n2 w v] by simp
  with ephem_tod_some(2) [OF ms, of a n1 n2 v]
  have sv: "ephem_tod e a n1 n2 v =
       (timers_check (StringType ''etod_reload'') ?rt Reload
          (?lg (create_timers (env_used e a ms) n1 ms
                  (timers_cancel_all (v\<lparr>trace := trace v @ preamble e ms\<rparr>)))),
        Scheduled)"
    by (simp split: if_splits)
  let ?cw = "create_timers (env_used e a ms) n1 ms
                  (timers_cancel_all (w\<lparr>trace := trace w @ preamble e ms\<rparr>))"
  let ?cv = "create_timers (env_used e a ms) n1 ms
                  (timers_cancel_all (v\<lparr>trace := trace v @ preamble e ms\<rparr>))"
  have "timers ?cw = timers ?cv"
    by (rule create_timers_timers_frame) (simp add: timers_cancel_all_def emit_def)
  then have "timers (?lg ?cw) = timers (?lg ?cv)"
    by (simp add: log_info_def emit_def)
  with sw sv show ?thesis
    by (simp add: timers_check_def emit_def)
qed

lemma map_of_filter_fst: "map_of (filter (\<lambda>t. fst t \<noteq> k) xs) k = None"
  by (induction xs) auto

lemma timers_check_lookup:
  "map_of (timers (timers_check name when f w)) name = Some (when, f)"
  by (simp add: timers_check_def emit_def map_add_def map_of_filter_fst)

lemma fold_cancel_timers:
  "timers (fold timers_cancel ks w) = filter (\<lambda>t. fst t \<notin> set ks) (timers w)"
proof (induction ks arbitrary: w)
  case Nil
  show ?case by simp
next
  case (Cons k ks)
  have "timers (timers_cancel k w) = filter (\<lambda>t. fst t \<noteq> k) (timers w)"
    by (simp add: timers_cancel_def emit_def)
  with Cons.IH [of "timers_cancel k w"] show ?case
    by (auto intro: filter_cong)
qed

lemma fold_cancel_trace: "trace (fold timers_cancel ks w) = trace w @ map TimerCancel ks"
proof (induction ks arbitrary: w)
  case Nil
  show ?case by simp
next
  case (Cons k ks)
  have "trace (timers_cancel k w) = trace w @ [TimerCancel k]"
    by (simp add: timers_cancel_def emit_def)
  with Cons.IH [of "timers_cancel k w"] show ?case by simp
qed

text \<open>What the retirement step of lines 259-261 removes, and the calls it makes.\<close>

lemma retire_exact:
  "timers (retire etod_items w) =
     (case etod_items of
        Some (n # ns) \<Rightarrow> filter (\<lambda>t. fst t \<in> set (map StringType (n # ns))) (timers w)
      | _ \<Rightarrow> timers w)"
  "trace (retire etod_items w) =
     trace w @
     (case etod_items of
        Some (n # ns) \<Rightarrow>
          map TimerCancel (filter (\<lambda>k. k \<notin> set (map StringType (n # ns))) (map fst (timers w)))
      | _ \<Rightarrow> [])"
  by (auto simp: retire_def fold_cancel_timers fold_cancel_trace
           split: option.splits list.splits intro: filter_cong)

lemma preamble_no_timer: "filter is_timer_check (preamble e ms) = []"
  by (simp add: preamble_def is_timer_check_def)

lemma ephem_tod_abort_timers:
  assumes "snd (ephem_tod e a n1 n2 w) \<noteq> Scheduled"
  shows "timers (fst (ephem_tod e a n1 n2 w)) = timers w"
proof (cases "snd (get_times e w)")
  case None
  from ephem_tod_none [OF None, of a n1 n2 w] show ?thesis by simp
next
  case (Some ms)
  from ephem_tod_some(2) [OF Some, of a n1 n2 w] assms show ?thesis
    by (simp split: if_splits)
qed

lemma retire_timers: "set (timers (retire etod_items w)) \<subseteq> set (timers w)"
  by (auto simp: retire_def fold_cancel_timers split: option.splits list.splits)

lemma ex_run_14:
  "ephem_tod ex_env (item_state ex_env) (at_time 100 14 0) (at_time 100 14 0) w =
     (\<lparr>timers = [(StringType ''etod_reload'', at_time 101 0 2, Reload)],
       trace = trace w @
         [Log INFO ''Recalculating time of day'',
          Log INFO ''Today is a {} day, there are {} time periods today.'',
          TimerCancelAll,
          Log DEBUG ''NOW:    {} start time {} is in the past but after {}'',
          Log INFO ''Created {} timers.'',
          Log INFO ''The current time of day is {}'',
          SendCommand ''TimeOfDay'' (StringType ''LAZY''),
          Log INFO ''Creating reload timer for {}'',
          TimerCheck (StringType ''etod_reload'') (at_time 101 0 2) Reload]\<rparr>,
      Scheduled)"
proof -
  have g: "snd (get_times ex_env w0) = Some [''vHoliday'']" by (rule ex_get_times)
  have u: "env_used ex_env (item_state ex_env) [''vHoliday''] = ex_env"
    by (simp add: env_used_def)
  have p: "preamble ex_env [''vHoliday''] =
      [Log INFO ''Recalculating time of day'',
       Log INFO ''Today is a {} day, there are {} time periods today.'']"
    by (simp add: preamble_def init_kicked_def ex_env_def)
  have n: "item_state ex_env ''vHoliday'' = DateTimeType (at_time 100 9 0)"
    by (simp add: ex_env_def)
  have z: "zone ex_env = (\<lambda>d. 0)" by (simp add: ex_env_def)
  have rg: "reload_target (zone ex_env) (at_time 100 14 0) = at_time 100 0 2"
    by (simp add: z reload_target_def withHour_def withMinute_def withSecond_def withNano_def
          resolveLocal_def at_time_def)
  have r: "isBefore (reload_target (zone ex_env) (at_time 100 14 0)) (at_time 100 14 0)"
    unfolding rg by (simp add: isBefore_def instant_def time_of_day_def at_time_def)
  have rt: "plusDays (zone ex_env) (reload_target (zone ex_env) (at_time 100 14 0)) 1 =
      at_time 101 0 2"
    unfolding rg by (simp add: z plusDays_def resolveLocal_def at_time_def)
  have c: "create_timers ex_env (at_time 100 14 0) [''vHoliday''] v =
      v\<lparr>trace := trace v @ [Log DEBUG ''NOW:    {} start time {} is in the past but after {}'',
          Log INFO ''Created {} timers.'',
          Log INFO ''The current time of day is {}'',
          SendCommand ''TimeOfDay'' (StringType ''LAZY'')]\<rparr>" for v
    by (simp add: eval_defs ex_env_def)
  from ephem_tod_some(2) [OF g, of "item_state ex_env" "at_time 100 14 0" "at_time 100 14 0" w]
  show ?thesis
    by (simp add: u p n r rt c timers_cancel_all_def timers_check_def log_info_def emit_def)
qed





lemma ex_scheduled: "snd (ephem_tod ex_env (item_state ex_env) n1 n2 w) = Scheduled"
proof -
  have n: "item_state ex_env ''vHoliday'' = DateTimeType (at_time 100 9 0)"
    by (simp add: ex_env_def)
  from ephem_tod_some(2) [OF ex_get_times, of "item_state ex_env" n1 n2 w]
  show ?thesis by (simp add: env_used_def n)
qed

lemma undef_get_times: "snd (get_times undef_env w) = Some [''vMorning'']"
proof -
  have st: "start_times undef_env =
     [(''default'', [''vMorning'']), (''weekday'', []), (''weekend'', []), (''dayset'', []),
      (''holiday'', []), (''custom'', [])]"
    by (simp add: start_times_def types_def cond_def undef_env_def)
  show ?thesis
    by (simp add: get_times_def get_times_body_def log_traceback_def getitem_def Let_def
          st day_type_def truthy_def)
qed

lemma undef_run:
  "ephem_tod undef_env (item_state undef_env) n1 n2 w =
     (w\<lparr>trace := trace w @
         [Log INFO ''Recalculating time of day'',
          Log INFO ''Today is a {} day, there are {} time periods today.'',
          Log WARN ''The following Items are are NULL/UNDEF, kicking off initialization using item_init: {}'',
          SendCommand ''InitItems'' (StringType ''ON''), Sleep 5,
          Log ERROR ''The following Items are still NULL/UNDEF, cannot create Time of Day timers: {}'']\<rparr>,
      StillUndef)"
proof -
  have st: "start_times undef_env =
     [(''default'', [''vMorning'']), (''weekday'', []), (''weekend'', []), (''dayset'', []),
      (''holiday'', []), (''custom'', [])]"
    by (simp add: start_times_def types_def cond_def undef_env_def)
  have g: "snd (get_times undef_env w0) = Some [''vMorning'']"
    by (simp add: get_times_def get_times_body_def log_traceback_def getitem_def Let_def
          st day_type_def truthy_def)
  have k: "init_kicked undef_env [''vMorning'']"
    by (simp add: init_kicked_def undef_env_def)
  have n: "item_state undef_env ''vMorning'' = UnDefType"
    by (simp add: undef_env_def)
  from ephem_tod_some(2) [OF g, of "item_state undef_env" n1 n2 w]
  show ?thesis by (simp add: env_used_def preamble_def k n)
qed




text \<open>
  Claim C6. On a day on which every category has an empty entry, \<open>get_times\<close> yields
  \<open>None\<close> (the body fails at line 126 and the wrapper turns the failure into \<open>None\<close>),
  and the run of \<open>ephem_tod\<close> that receives it logs the error of line 205 and returns:
  the timer registry is the one it started with and the trace gains log entries only.
\<close>

theorem no_category_aborts:
  assumes "\<forall>k \<in> set priority. map_of (start_times e) k = Some []"
  shows "snd (get_times e w) = None
       \<and> ephem_tod e after_init now1 now2 w =
           (w\<lparr>trace := trace w @ [Log INFO ''Recalculating time of day'',
                                   Traceback KeyError,
                                   Log ERROR ''No start times found! Cannot run the rule!'']\<rparr>,
            NoStartTimes)"
  by (simp add: get_times_none [OF assms] ephem_tod_def log_info_def log_error_def emit_def)

theorem no_category_aborts_witness:
  "start_times empty_env =
     [(''default'', []), (''weekday'', []), (''weekend'', []), (''dayset'', []),
      (''holiday'', []), (''custom'', [])]
   \<and> snd (get_times empty_env w0) = None
   \<and> ephem_tod empty_env (item_state empty_env) (at_time 100 14 0) (at_time 100 14 0) w0 =
       (\<lparr>timers = [], trace = [Log INFO ''Recalculating time of day'',
                               Traceback KeyError,
                               Log ERROR ''No start times found! Cannot run the rule!'']\<rparr>,
        NoStartTimes)"
proof -
  have st: "start_times empty_env =
     [(''default'', []), (''weekday'', []), (''weekend'', []), (''dayset'', []),
      (''holiday'', []), (''custom'', [])]"
    by (simp add: start_times_def types_def cond_def empty_env_def ex_env_def)
  have h: "\<forall>k \<in> set priority. map_of (start_times empty_env) k = Some []"
    by (simp add: priority_def st)
  from no_category_aborts [OF h, of w0 "item_state empty_env" "at_time 100 14 0" "at_time 100 14 0"] st
  show ?thesis by (simp add: w0_def)
qed

text \<open>
  Claim C7, as amended. A run that does not reach scheduling leaves the timer registry as
  it was, and its effects are exactly these. When \<open>get_times\<close> found nothing: three log
  entries and no command at all. When markers are still undefined at line 219: log entries
  only, except that the command ON to InitItems and the five seconds of waiting precede
  the last one exactly when a marker was undefined at line 209 and the item InitItems
  exists. No timer is cancelled or created, nothing is sent to the TimeOfDay item and no
  update is posted.
\<close>

theorem abort_before_timers_and_state:
  assumes "snd (ephem_tod e after_init now1 now2 w) \<noteq> Scheduled"
  shows "timers (fst (ephem_tod e after_init now1 now2 w)) = timers w
     \<and> ((snd (ephem_tod e after_init now1 now2 w) = NoStartTimes
          \<and> snd (get_times e w) = None
          \<and> trace (fst (ephem_tod e after_init now1 now2 w)) =
              trace w @ [Log INFO ''Recalculating time of day'', Traceback KeyError,
                         Log ERROR ''No start times found! Cannot run the rule!''])
        \<or> (snd (ephem_tod e after_init now1 now2 w) = StillUndef
          \<and> (\<exists>ms. snd (get_times e w) = Some ms
                \<and> filter (\<lambda>i. item_state (env_used e after_init ms) i = UnDefType) ms \<noteq> []
                \<and> trace (fst (ephem_tod e after_init now1 now2 w)) =
                    trace w
                    @ [Log INFO ''Recalculating time of day'',
                       Log INFO ''Today is a {} day, there are {} time periods today.'']
                    @ (if filter (\<lambda>i. item_state e i = UnDefType) ms \<noteq> []
                          \<and> ''InitItems'' \<in> set (item_names e)
                       then [Log WARN ''The following Items are are NULL/UNDEF, kicking off initialization using item_init: {}'',
                             SendCommand ''InitItems'' (StringType ''ON''), Sleep 5]
                       else [])
                    @ [Log ERROR ''The following Items are still NULL/UNDEF, cannot create Time of Day timers: {}''])))"
proof (cases "snd (get_times e w)")
  case None
  from ephem_tod_none [OF None, of after_init now1 now2 w] None show ?thesis by simp
next
  case (Some ms)
  let ?still = "Log ERROR ''The following Items are still NULL/UNDEF, cannot create Time of Day timers: {}''"
  from ephem_tod_some(2) [OF Some, of after_init now1 now2 w] assms
  have u: "filter (\<lambda>i. item_state (env_used e after_init ms) i = UnDefType) ms \<noteq> []"
    and r: "ephem_tod e after_init now1 now2 w =
      (w\<lparr>trace := trace w @ preamble e ms @ [?still]\<rparr>, StillUndef)"
    by (simp_all split: if_splits)
  from r have "timers (fst (ephem_tod e after_init now1 now2 w)) = timers w"
    and "snd (ephem_tod e after_init now1 now2 w) = StillUndef"
    and "trace (fst (ephem_tod e after_init now1 now2 w)) =
                    trace w
                    @ [Log INFO ''Recalculating time of day'',
                       Log INFO ''Today is a {} day, there are {} time periods today.'']
                    @ (if filter (\<lambda>i. item_state e i = UnDefType) ms \<noteq> []
                          \<and> ''InitItems'' \<in> set (item_names e)
                       then [Log WARN ''The following Items are are NULL/UNDEF, kicking off initialization using item_init: {}'',
                             SendCommand ''InitItems'' (StringType ''ON''), Sleep 5]
                       else [])
                    @ [?still]"
    by (simp_all add: preamble_def init_kicked_def)
  with Some u show ?thesis by blast
qed

theorem abort_before_timers_and_state_witness:
  "snd (ephem_tod undef_env (item_state undef_env) (at_time 100 14 0) (at_time 100 14 0) w_reload)
     = StillUndef
   \<and> timers (fst (ephem_tod undef_env (item_state undef_env) (at_time 100 14 0) (at_time 100 14 0)
                   w_reload)) =
       [(StringType ''etod_reload'', at_time 100 0 2, Reload)]
   \<and> trace (fst (ephem_tod undef_env (item_state undef_env) (at_time 100 14 0)
                   (at_time 100 14 0) w_reload)) =
       [Log INFO ''Recalculating time of day'',
        Log INFO ''Today is a {} day, there are {} time periods today.'',
        Log WARN ''The following Items are are NULL/UNDEF, kicking off initialization using item_init: {}'',
        SendCommand ''InitItems'' (StringType ''ON''), Sleep 5,
        Log ERROR ''The following Items are still NULL/UNDEF, cannot create Time of Day timers: {}'']"
proof -
  let ?r = "ephem_tod undef_env (item_state undef_env) (at_time 100 14 0) (at_time 100 14 0) w_reload"
  have s: "snd ?r = StillUndef" by (simp add: undef_run)
  then have h: "snd ?r \<noteq> Scheduled" by simp
  have k: "filter (\<lambda>i. item_state undef_env i = UnDefType) [''vMorning''] \<noteq> []
      \<and> ''InitItems'' \<in> set (item_names undef_env)"
    by (simp add: undef_env_def)
  from abort_before_timers_and_state [OF h] s undef_get_times [of w_reload] k
  show ?thesis by (auto simp: w_reload_def)
qed

text \<open>
  Claim C7 as stated fails on the code. A marker that is and stays undefined, with the
  item InitItems present: the run ends at line 224 after it has sent a command.
\<close>

theorem init_command_counterexample:
  "ephem_tod undef_env (item_state undef_env) (at_time 100 14 0) (at_time 100 14 0) w0 =
     (\<lparr>timers = [],
       trace = [Log INFO ''Recalculating time of day'',
                Log INFO ''Today is a {} day, there are {} time periods today.'',
                Log WARN ''The following Items are are NULL/UNDEF, kicking off initialization using item_init: {}'',
                SendCommand ''InitItems'' (StringType ''ON''), Sleep 5,
                Log ERROR ''The following Items are still NULL/UNDEF, cannot create Time of Day timers: {}'']\<rparr>,
      StillUndef)"
  by (simp add: undef_run w0_def)

text \<open>
  Claim C9, as amended. The retirement step of \<open>load_etod\<close> cancels exactly the timers
  whose names are not among the item names it is given, and none when the list is empty
  or missing; the reload timer is not exempt. A run of \<open>ephem_tod\<close> that reaches
  scheduling cancels all timers, the reload timer among them, before it requests any: the
  registry it leaves is the one it would leave when started with no timer at all, and
  holds the reload timer with the new target. A run that does not reach scheduling leaves
  the registry as it found it. So the registry after \<open>load_etod\<close> is the rebuilt one when
  the run reaches scheduling and the one the retirement step left otherwise; when the
  rule could not be deleted, nothing is touched.
\<close>

theorem registry_rebuilt_each_cycle:
  "timers (retire etod_items w) =
     (case etod_items of
        Some (n # ns) \<Rightarrow> filter (\<lambda>t. fst t \<in> set (map StringType (n # ns))) (timers w)
      | _ \<Rightarrow> timers w)
   \<and> trace (retire etod_items w) =
       trace w @
       (case etod_items of
          Some (n # ns) \<Rightarrow>
            map TimerCancel
              (filter (\<lambda>k. k \<notin> set (map StringType (n # ns))) (map fst (timers w)))
        | _ \<Rightarrow> [])
   \<and> timers (fst (ephem_tod e after_init now1 now2 w)) =
       (if snd (ephem_tod e after_init now1 now2 w) = Scheduled
        then timers (fst (ephem_tod e after_init now1 now2 \<lparr>timers = [], trace = []\<rparr>))
        else timers w)
   \<and> (snd (ephem_tod e after_init now1 now2 w) = Scheduled \<longrightarrow>
        map_of (timers (fst (ephem_tod e after_init now1 now2 w))) (StringType ''etod_reload'') =
          Some (if isBefore (reload_target (zone e) now2) now2
                then plusDays (zone e) (reload_target (zone e) now2) 1
                else reload_target (zone e) now2, Reload)
        \<and> (\<exists>evs1 evs2. trace (fst (ephem_tod e after_init now1 now2 w)) =
               trace w @ evs1 @ TimerCancelAll # evs2
             \<and> filter is_timer_check evs1 = []))
   \<and> timers (fst (load_etod_body e True etod_items after_init now1 now2 w)) =
       (if snd (ephem_tod e after_init now1 now2 w) = Scheduled
        then timers (fst (ephem_tod e after_init now1 now2 \<lparr>timers = [], trace = []\<rparr>))
        else timers (retire etod_items w))
   \<and> timers (fst (load_etod_body e False etod_items after_init now1 now2 w)) = timers w"
proof -
  let ?fresh = "\<lparr>timers = [], trace = []\<rparr>"
  let ?rt = "if isBefore (reload_target (zone e) now2) now2
             then plusDays (zone e) (reload_target (zone e) now2) 1
             else reload_target (zone e) now2"
  have c3: "timers (fst (ephem_tod e after_init now1 now2 v)) =
       (if snd (ephem_tod e after_init now1 now2 v) = Scheduled
        then timers (fst (ephem_tod e after_init now1 now2 ?fresh))
        else timers v)" for v
    using ephem_tod_timers_frame [of e after_init now1 now2 v ?fresh]
      ephem_tod_abort_timers [of e after_init now1 now2 v]
    by simp
  have c4: "snd (ephem_tod e after_init now1 now2 w) = Scheduled \<longrightarrow>
        map_of (timers (fst (ephem_tod e after_init now1 now2 w))) (StringType ''etod_reload'') =
          Some (?rt, Reload)
        \<and> (\<exists>evs1 evs2. trace (fst (ephem_tod e after_init now1 now2 w)) =
               trace w @ evs1 @ TimerCancelAll # evs2
             \<and> filter is_timer_check evs1 = [])"
  proof
    assume "snd (ephem_tod e after_init now1 now2 w) = Scheduled"
    then obtain ms where
      sw: "ephem_tod e after_init now1 now2 w =
         (timers_check (StringType ''etod_reload'') ?rt Reload
            ((if isBefore (reload_target (zone e) now2) now2
              then log_info ''Creating reload timer for {}'' else id)
               (create_timers (env_used e after_init ms) now1 ms
                    (timers_cancel_all (w\<lparr>trace := trace w @ preamble e ms\<rparr>)))),
          Scheduled)"
      by (rule ephem_tod_scheduled)
    let ?cw = "create_timers (env_used e after_init ms) now1 ms
                    (timers_cancel_all (w\<lparr>trace := trace w @ preamble e ms\<rparr>))"
    from sw have m: "map_of (timers (fst (ephem_tod e after_init now1 now2 w)))
          (StringType ''etod_reload'') = Some (?rt, Reload)"
      by (simp add: timers_check_lookup)
    from create_timers_trace [of "env_used e after_init ms" now1 ms
        "timers_cancel_all (w\<lparr>trace := trace w @ preamble e ms\<rparr>)"]
    obtain evs where "trace ?cw = trace w @ preamble e ms @ TimerCancelAll # evs"
      by (auto simp: timers_cancel_all_def emit_def)
    with sw have "trace (fst (ephem_tod e after_init now1 now2 w)) =
        trace w @ preamble e ms @ TimerCancelAll #
          (evs @ (if isBefore (reload_target (zone e) now2) now2
                  then [Log INFO ''Creating reload timer for {}''] else [])
           @ [TimerCheck (StringType ''etod_reload'') ?rt Reload])"
      by (simp add: timers_check_def log_info_def emit_def)
    with preamble_no_timer [of e ms]
    have "\<exists>evs1 evs2. trace (fst (ephem_tod e after_init now1 now2 w)) =
              trace w @ evs1 @ TimerCancelAll # evs2
            \<and> filter is_timer_check evs1 = []"
      by blast
    with m show "map_of (timers (fst (ephem_tod e after_init now1 now2 w)))
          (StringType ''etod_reload'') = Some (?rt, Reload)
        \<and> (\<exists>evs1 evs2. trace (fst (ephem_tod e after_init now1 now2 w)) =
               trace w @ evs1 @ TimerCancelAll # evs2
             \<and> filter is_timer_check evs1 = [])"
      by blast
  qed
  have o: "snd (ephem_tod e after_init now1 now2 (retire etod_items w)) =
      snd (ephem_tod e after_init now1 now2 w)"
    by (rule ephem_tod_outcome_frame)
  have "timers (fst (load_etod_body e True etod_items after_init now1 now2 w)) =
      timers (fst (ephem_tod e after_init now1 now2 (retire etod_items w)))"
    by (auto simp: load_etod_body_def split: prod.splits)
  with c3 [of "retire etod_items w"] o
  have c5: "timers (fst (load_etod_body e True etod_items after_init now1 now2 w)) =
       (if snd (ephem_tod e after_init now1 now2 w) = Scheduled
        then timers (fst (ephem_tod e after_init now1 now2 ?fresh))
        else timers (retire etod_items w))"
    by simp
  have c6: "timers (fst (load_etod_body e False etod_items after_init now1 now2 w)) = timers w"
    by (simp add: load_etod_body_def log_error_def emit_def)
  from retire_exact [of etod_items w] c3 [of w] c4 c5 c6 show ?thesis by blast
qed

theorem registry_rebuilt_each_cycle_witness:
  "snd (ephem_tod ex_env (item_state ex_env) (at_time 100 14 0) (at_time 100 14 0) w_reload) = Scheduled
   \<and> timers (retire (Some [''vMorning'']) w_reload) = []
   \<and> timers (fst (ephem_tod ex_env (item_state ex_env) (at_time 100 14 0) (at_time 100 14 0) w_reload)) =
       timers (fst (ephem_tod ex_env (item_state ex_env) (at_time 100 14 0) (at_time 100 14 0)
                      \<lparr>timers = [], trace = []\<rparr>))
   \<and> map_of (timers (fst (ephem_tod ex_env (item_state ex_env) (at_time 100 14 0)
                             (at_time 100 14 0) w_reload))) (StringType ''etod_reload'') =
       Some (at_time 101 0 2, Reload)
   \<and> timers (fst (load_etod_body ex_env True (Some [''vMorning'']) (item_state ex_env)
                    (at_time 100 14 0) (at_time 100 14 0) w_reload)) =
       timers (fst (ephem_tod ex_env (item_state ex_env) (at_time 100 14 0) (at_time 100 14 0)
                      \<lparr>timers = [], trace = []\<rparr>))"
proof -
  have z: "zone ex_env = (\<lambda>d. 0)" by (simp add: ex_env_def)
  have rg: "reload_target (zone ex_env) (at_time 100 14 0) = at_time 100 0 2"
    by (simp add: z reload_target_def withHour_def withMinute_def withSecond_def withNano_def
          resolveLocal_def at_time_def)
  have rt: "(if isBefore (reload_target (zone ex_env) (at_time 100 14 0)) (at_time 100 14 0)
             then plusDays (zone ex_env) (reload_target (zone ex_env) (at_time 100 14 0)) 1
             else reload_target (zone ex_env) (at_time 100 14 0)) = at_time 101 0 2"
    unfolding rg
    by (simp add: z plusDays_def resolveLocal_def isBefore_def instant_def time_of_day_def
          at_time_def)
  have r: "(case Some [''vMorning''] of
        Some (n # ns) \<Rightarrow> filter (\<lambda>t. fst t \<in> set (map StringType (n # ns))) (timers w_reload)
      | _ \<Rightarrow> timers w_reload) = []"
    by (simp add: w_reload_def)
  let ?run = "ephem_tod ex_env (item_state ex_env) (at_time 100 14 0) (at_time 100 14 0)"
  have sc: "snd (?run w_reload) = Scheduled" by (rule ex_scheduled)
  from registry_rebuilt_each_cycle [of "Some [''vMorning'']" w_reload ex_env "item_state ex_env"
      "at_time 100 14 0" "at_time 100 14 0"]
  have c1: "timers (retire (Some [''vMorning'']) w_reload) = []"
    and c3: "timers (fst (?run w_reload)) =
       (if snd (?run w_reload) = Scheduled then timers (fst (?run \<lparr>timers = [], trace = []\<rparr>))
        else timers w_reload)"
    and c4: "snd (?run w_reload) = Scheduled \<longrightarrow>
        map_of (timers (fst (?run w_reload))) (StringType ''etod_reload'') =
          Some (at_time 101 0 2, Reload)
        \<and> (\<exists>evs1 evs2. trace (fst (?run w_reload)) = trace w_reload @ evs1 @ TimerCancelAll # evs2
             \<and> filter is_timer_check evs1 = [])"
    and c5: "timers (fst (load_etod_body ex_env True (Some [''vMorning'']) (item_state ex_env)
                    (at_time 100 14 0) (at_time 100 14 0) w_reload)) =
       (if snd (?run w_reload) = Scheduled then timers (fst (?run \<lparr>timers = [], trace = []\<rparr>))
        else timers (retire (Some [''vMorning'']) w_reload))"
    unfolding rt r by blast+
  from c3 sc have d3: "timers (fst (?run w_reload)) = timers (fst (?run \<lparr>timers = [], trace = []\<rparr>))"
    by simp
  from c4 sc have d4: "map_of (timers (fst (?run w_reload))) (StringType ''etod_reload'') =
          Some (at_time 101 0 2, Reload)"
    by blast
  from c5 sc have d5: "timers (fst (load_etod_body ex_env True (Some [''vMorning''])
        (item_state ex_env) (at_time 100 14 0) (at_time 100 14 0) w_reload)) =
       timers (fst (?run \<lparr>timers = [], trace = []\<rparr>))"
    by simp
  from sc c1 d3 d4 d5 show ?thesis by (intro conjI)
qed

text \<open>
  Claim C9 as stated fails on the code. With only the reload timer registered and two
  markers configured, the retirement step cancels the reload timer (its name is not an
  item name), and the run that follows cancels all timers.
\<close>

theorem reload_timer_retired_counterexample:
  "timers (retire (Some [''vMorning'', ''vNight'']) w_reload) = []
   \<and> trace (retire (Some [''vMorning'', ''vNight'']) w_reload) =
       [TimerCancel (StringType ''etod_reload'')]
   \<and> TimerCancelAll \<in> set (trace (fst (ephem_tod ex_env (item_state ex_env)
                                        (at_time 100 14 0) (at_time 100 14 0) w_reload)))"
  by (simp add: ex_run_14) (simp add: retire_def timers_cancel_def emit_def w_reload_def)

subsection \<open>Firing of a transition timer\<close>

text \<open>
  Claim C10. A firing transition timer runs \<open>etod_transition\<close> with the state bound to
  it, and \<open>etod_transition\<close> sends that state as a command to the TimeOfDay item whatever
  the item currently holds: the command is issued for every environment, hence also when
  the item already has the commanded state. The timer registry is not touched.
\<close>

theorem etod_transition_unconditional:
  "trace (etod_transition e st w) =
     trace w @ [Log INFO ''Transitioning Time of Day from {} to {}'', SendCommand ETOD_ITEM st]
   \<and> timers (etod_transition e st w) = timers w
   \<and> run_action e after_init now1 now2 (Transition st) w = etod_transition e st w"
  by (simp add: etod_transition_def sendCommand_def log_info_def emit_def run_action_def)

end
